theory Spec2Isabelle
  imports Complex_Main "HOL-Library.AList" "HOL-Library.Multiset" "HOL-Library.Stream"
begin

section \<open>Employee generator and name statistics (src/main.js)\<close>

text \<open>
  The development embeds \<^verbatim>\<open>src/main.js\<close>: the aggregator
  (\<^verbatim>\<open>getEmployeeChartContent\<close> and everything it calls) and the generator
  (\<^verbatim>\<open>generateEmployeeData\<close> and everything it calls). JavaScript strings are
  modelled as \<^typ>\<open>string\<close>; a character outside ASCII is written as its UTF-8
  bytes, which is injective on texts, and the program only compares names for equality and
  uses them as property keys.
\<close>

subsection \<open>Data model\<close>

text \<open>
  The employee object literal of \<^verbatim>\<open>createEmployee\<close> (line 207). The aggregator
  accepts employees it did not generate, so \<open>gender\<close> is any string, \<open>name\<close> is any
  string and \<open>workload\<close> is any integer.
\<close>

record employee =
  gender :: string
  birthdate :: string
  name :: string
  surname :: string
  workload :: int

text \<open>
  The values a property of a counting bucket can hold. A bucket starts as \<^verbatim>\<open>{}\<close> and
  is only written by \<^verbatim>\<open>b[name] = (b[name] || 0) + 1\<close>, so a property holds a
  Number (a count, far below \<open>2^53\<close>, hence exact) or, when the key shadows a member of
  \<^verbatim>\<open>Object.prototype\<close>, a String that starts with the text of that member.
\<close>

datatype jsval = JNum nat | JStr string

text \<open>
  An ordinary object with data properties only: its own properties in creation order.
  Updating a property keeps its place, a new property goes to the end.
\<close>

type_synonym jsobj = "(string \<times> jsval) list"

text \<open>The five buckets, used for the counters, for \<^verbatim>\<open>names\<close> and for \<^verbatim>\<open>chartData\<close>.\<close>

record 'a buckets =
  all :: 'a
  male :: 'a
  female :: 'a
  femalePartTime :: 'a
  maleFullTime :: 'a

text \<open>A chart pair \<^verbatim>\<open>{ label, value }\<close>.\<close>

record chart =
  label :: string
  val :: jsval

record dtoOut =
  names :: "jsobj buckets"
  chartData :: "chart list buckets"

subsection \<open>Property access on an object created by \<^verbatim>\<open>{}\<close>\<close>

text \<open>
  The data properties of \<^verbatim>\<open>Object.prototype\<close> that every object literal inherits,
  each with the name of the built-in function it holds. \<^verbatim>\<open>__proto__\<close> is the only
  accessor property and is treated apart.
\<close>

definition prototype_functions :: "(string \<times> string) list" where
  "prototype_functions =
     [(''constructor'', ''Object''),
      (''__defineGetter__'', ''__defineGetter__''),
      (''__defineSetter__'', ''__defineSetter__''),
      (''hasOwnProperty'', ''hasOwnProperty''),
      (''__lookupGetter__'', ''__lookupGetter__''),
      (''__lookupSetter__'', ''__lookupSetter__''),
      (''isPrototypeOf'', ''isPrototypeOf''),
      (''propertyIsEnumerable'', ''propertyIsEnumerable''),
      (''toString'', ''toString''),
      (''valueOf'', ''valueOf''),
      (''toLocaleString'', ''toLocaleString'')]"

text \<open>
  The result of \<^verbatim>\<open>obj[k]\<close>: nothing, an own property, or an inherited object, given
  by the string that \<^verbatim>\<open>+\<close> converts it to. For a built-in function that string is
  implementation-defined; the text below is the one V8 prints.
\<close>

datatype jsget = Undefined | Stored jsval | Inherited string

definition js_get :: "jsobj \<Rightarrow> string \<Rightarrow> jsget" where
  "js_get obj k =
     (case map_of obj k of
        Some v \<Rightarrow> Stored v
      | None \<Rightarrow>
          (if k = ''__proto__'' then Inherited ''[object Object]''
           else (case map_of prototype_functions k of
                   Some f \<Rightarrow> Inherited (''function '' @ f @ ''() { [native code] }'')
                 | None \<Rightarrow> Undefined)))"

text \<open>
  The expression \<^verbatim>\<open>(x || 0) + 1\<close>: \<^verbatim>\<open>undefined\<close>, \<open>0\<close> and the empty
  string are falsy; a truthy string or object makes \<^verbatim>\<open>+\<close> a concatenation.
\<close>

fun or0_plus1 :: "jsget \<Rightarrow> jsval" where
  "or0_plus1 Undefined = JNum 1"
| "or0_plus1 (Stored (JNum n)) = JNum (n + 1)"
| "or0_plus1 (Stored (JStr s)) = (if s = [] then JNum 1 else JStr (s @ ''1''))"
| "or0_plus1 (Inherited s) = JStr (s @ ''1'')"

text \<open>
  The assignment \<^verbatim>\<open>obj[k] = v\<close> for a primitive \<open>v\<close>. Without an own property
  \<^verbatim>\<open>__proto__\<close> the inherited setter runs, which ignores a value that is neither an
  object nor null. The inherited functions are writable data properties, so assigning to
  their names creates an own property.
\<close>

definition js_set :: "jsobj \<Rightarrow> string \<Rightarrow> jsval \<Rightarrow> jsobj" where
  "js_set obj k v =
     (if k = ''__proto__'' \<and> map_of obj k = None then obj else AList.update k v obj)"

text \<open>The statement \<^verbatim>\<open>b[name] = (b[name] || 0) + 1\<close> (lines 78, 81, 83, 86, 88).\<close>

definition increment :: "jsobj \<Rightarrow> string \<Rightarrow> jsobj" where
  "increment obj k = js_set obj k (or0_plus1 (js_get obj k))"

subsection \<open>Enumeration order of own properties\<close>

text \<open>
  An array index is the canonical decimal text of an integer from \<open>0\<close> to \<open>2^32 - 2\<close>.
  \<^verbatim>\<open>Object.entries\<close> lists the own properties whose key is an array index first, in
  ascending numeric order, and then the other keys in creation order.
\<close>

definition is_digit :: "char \<Rightarrow> bool" where
  "is_digit c \<longleftrightarrow> 48 \<le> (of_char c :: int) \<and> (of_char c :: int) \<le> 57"

definition digits_value :: "string \<Rightarrow> int" where
  "digits_value s = foldl (\<lambda>n c. 10 * n + (of_char c - 48)) 0 s"

definition is_array_index :: "string \<Rightarrow> bool" where
  "is_array_index s \<longleftrightarrow>
     s \<noteq> [] \<and> list_all is_digit s \<and> (s = ''0'' \<or> hd s \<noteq> CHR ''0'')
     \<and> digits_value s < 4294967295"

definition Object_entries :: "jsobj \<Rightarrow> (string \<times> jsval) list" where
  "Object_entries obj =
     sort_key (\<lambda>p. digits_value (fst p)) (filter (\<lambda>p. is_array_index (fst p)) obj)
     @ filter (\<lambda>p. \<not> is_array_index (fst p)) obj"

text \<open>
  \<^verbatim>\<open>Object.fromEntries\<close> defines the properties one after the other; a key that
  comes again overwrites the value in place.
\<close>

definition Object_fromEntries :: "(string \<times> jsval) list \<Rightarrow> jsobj" where
  "Object_fromEntries entries = foldl (\<lambda>obj (k, v). AList.update k v obj) [] entries"

subsection \<open>Sorting\<close>

text \<open>
  \<^verbatim>\<open>Array.prototype.sort\<close> with a comparison function is stable (ECMAScript 2019).
  For a consistent comparison function the result is therefore determined: it is the one
  the insertion sort below computes. A negative or zero result of \<open>cmp a b\<close> keeps \<open>a\<close>
  before \<open>b\<close>.
\<close>

fun insert_sorted :: "('a \<Rightarrow> 'a \<Rightarrow> int) \<Rightarrow> 'a \<Rightarrow> 'a list \<Rightarrow> 'a list" where
  "insert_sorted cmp x [] = [x]"
| "insert_sorted cmp x (y # ys) =
     (if cmp x y \<le> 0 then x # y # ys else y # insert_sorted cmp x ys)"

definition Array_sort :: "('a \<Rightarrow> 'a \<Rightarrow> int) \<Rightarrow> 'a list \<Rightarrow> 'a list" where
  "Array_sort cmp xs = foldr (insert_sorted cmp) xs []"

text \<open>
  \<^verbatim>\<open>ToNumber\<close> on the values of a bucket: \<open>None\<close> stands for NaN, which every
  string of a bucket converts to (it starts with \<^verbatim>\<open>function\<close> or \<^verbatim>\<open>[object\<close>).
\<close>

fun ToNumber :: "jsval \<Rightarrow> int option" where
  "ToNumber (JNum n) = Some (int n)"
| "ToNumber (JStr s) = None"

text \<open>
  The comparison function \<^verbatim>\<open>(a, b) => b[1] - a[1]\<close>. A NaN result counts as \<open>0\<close>
  in the sort. On numbers the function is consistent. With a string among the values it is
  not, and ECMAScript leaves the order to the implementation; \<open>Array_sort\<close> then gives
  one of the admissible orders, and no statement below is about the order in that case.
\<close>

definition compare_entries :: "string \<times> jsval \<Rightarrow> string \<times> jsval \<Rightarrow> int" where
  "compare_entries a b =
     (case (ToNumber (snd b), ToNumber (snd a)) of
        (Some y, Some x) \<Rightarrow> y - x
      | _ \<Rightarrow> 0)"

subsection \<open>The aggregator\<close>

definition initializeNameCounts :: "jsobj buckets" where
  "initializeNameCounts =
     \<lparr>all = [], male = [], female = [], femalePartTime = [], maleFullTime = []\<rparr>"

text \<open>The body of the loop of \<^verbatim>\<open>countNamesByCategory\<close> (lines 76 to 90).\<close>

definition countNamesByCategory_step :: "employee \<Rightarrow> jsobj buckets \<Rightarrow> jsobj buckets" where
  "countNamesByCategory_step e nameCounts =
     (let n = name e;
          nc1 = nameCounts\<lparr>all := increment (all nameCounts) n\<rparr>
      in if gender e = ''male'' then
           (let nc2 = nc1\<lparr>male := increment (male nc1) n\<rparr>
            in if workload e = 40
               then nc2\<lparr>maleFullTime := increment (maleFullTime nc2) n\<rparr>
               else nc2)
         else
           (let nc2 = nc1\<lparr>female := increment (female nc1) n\<rparr>
            in if workload e \<noteq> 40
               then nc2\<lparr>femalePartTime := increment (femalePartTime nc2) n\<rparr>
               else nc2))"

fun countNamesByCategory :: "employee list \<Rightarrow> jsobj buckets \<Rightarrow> jsobj buckets" where
  "countNamesByCategory [] nameCounts = nameCounts"
| "countNamesByCategory (e # employees) nameCounts =
     countNamesByCategory employees (countNamesByCategory_step e nameCounts)"

definition sortAndConvertToChartData :: "jsobj \<Rightarrow> chart list" where
  "sortAndConvertToChartData nameDict =
     map (\<lambda>(l, v). \<lparr>label = l, val = v\<rparr>)
       (Array_sort compare_entries (Object_entries nameDict))"

definition sortNamesObject :: "jsobj \<Rightarrow> jsobj" where
  "sortNamesObject nameDict =
     (let sortedEntries = Array_sort compare_entries (Object_entries nameDict)
      in Object_fromEntries sortedEntries)"

definition createDtoOut :: "jsobj buckets \<Rightarrow> dtoOut" where
  "createDtoOut nameCounts =
     \<lparr>names =
        \<lparr>all = sortNamesObject (all nameCounts),
         male = sortNamesObject (male nameCounts),
         female = sortNamesObject (female nameCounts),
         femalePartTime = sortNamesObject (femalePartTime nameCounts),
         maleFullTime = sortNamesObject (maleFullTime nameCounts)\<rparr>,
      chartData =
        \<lparr>all = sortAndConvertToChartData (all nameCounts),
         male = sortAndConvertToChartData (male nameCounts),
         female = sortAndConvertToChartData (female nameCounts),
         femalePartTime = sortAndConvertToChartData (femalePartTime nameCounts),
         maleFullTime = sortAndConvertToChartData (maleFullTime nameCounts)\<rparr>\<rparr>"

definition analyzeEmployeeNames :: "employee list \<Rightarrow> dtoOut" where
  "analyzeEmployeeNames employees =
     (let nameCounts = countNamesByCategory employees initializeNameCounts
      in createDtoOut nameCounts)"

definition getEmployeeChartContent :: "employee list \<Rightarrow> dtoOut" where
  "getEmployeeChartContent employees = analyzeEmployeeNames employees"

subsection \<open>Numbers\<close>

text \<open>
  A Number is an IEEE 754 double. The finite doubles are rationals, and \<open>None\<close> stands for
  NaN and the two infinities: the generator does not tell them apart, as each of them makes
  an invalid Date. \<open>round_double q\<close> is the double nearest to \<open>q\<close>, a tie going to the
  even significand: a double has a significand of 53 bits, and below \<open>2^-1022\<close> the
  doubles are the multiples of \<open>2^-1074\<close>. A result of size \<open>2^1024\<close> or more is an
  overflow. The counts and the calendar fields are integers far below \<open>2^53\<close>, on which
  the arithmetic of doubles is exact; they are computed as integers.
\<close>

type_synonym number = "rat option"

function bit_length :: "int \<Rightarrow> int" where
  "bit_length n = (if n \<le> 0 then 0 else 1 + bit_length (n div 2))"
  by pat_completeness auto
termination
  by (relation "measure nat") auto

definition pow2 :: "int \<Rightarrow> rat" where
  "pow2 e = (if 0 \<le> e then 2 ^ nat e else 1 / 2 ^ nat (- e))"

text \<open>For \<open>q > 0\<close>, the exponent \<open>e\<close> with \<open>2^e \<le> q < 2^(e + 1)\<close>.\<close>

definition floor_log2 :: "rat \<Rightarrow> int" where
  "floor_log2 q =
     (let (a, b) = quotient_of q; k = bit_length a - bit_length b
      in if pow2 k \<le> q then k else k - 1)"

definition round_half_even :: "rat \<Rightarrow> int" where
  "round_half_even q =
     (let f = \<lfloor>q\<rfloor>; d = q - of_int f
      in if d < 1 / 2 then f else if 1 / 2 < d then f + 1 else if even f then f else f + 1)"

definition round_double :: "rat \<Rightarrow> rat" where
  "round_double q =
     (if q = 0 then 0
      else (let e = max (floor_log2 \<bar>q\<bar>) (- 1022); u = pow2 (e - 52)
            in of_int (round_half_even (q / u)) * u))"

definition to_double :: "rat \<Rightarrow> number" where
  "to_double q =
     (let d = round_double q
      in if d \<noteq> 0 \<and> 1023 < floor_log2 \<bar>d\<bar> then None else Some d)"

text \<open>The operators \<^verbatim>\<open>+\<close>, \<^verbatim>\<open>-\<close> and \<^verbatim>\<open>*\<close> on Numbers.\<close>

definition number_plus :: "number \<Rightarrow> number \<Rightarrow> number" where
  "number_plus a b = (case (a, b) of (Some x, Some y) \<Rightarrow> to_double (x + y) | _ \<Rightarrow> None)"

definition number_minus :: "number \<Rightarrow> number \<Rightarrow> number" where
  "number_minus a b = (case (a, b) of (Some x, Some y) \<Rightarrow> to_double (x - y) | _ \<Rightarrow> None)"

definition number_times :: "number \<Rightarrow> number \<Rightarrow> number" where
  "number_times a b = (case (a, b) of (Some x, Some y) \<Rightarrow> to_double (x * y) | _ \<Rightarrow> None)"

text \<open>Truncation towards zero, the integer part of a finite Number.\<close>

definition truncate_number :: "rat \<Rightarrow> int" where
  "truncate_number q = (if 0 \<le> q then \<lfloor>q\<rfloor> else \<lceil>q\<rceil>)"

subsection \<open>The host: clock, time zone and calendar\<close>

text \<open>
  The generator reads the clock (\<^verbatim>\<open>new Date()\<close>) and the local time zone of the host
  (every \<^verbatim>\<open>get...\<close> and \<^verbatim>\<open>setFullYear\<close> it calls works in local time). Both
  are parameters: \<open>currentTime\<close> is the time value of \<^verbatim>\<open>new Date()\<close> in
  milliseconds since the epoch, and \<open>LocalTZA t isUTC\<close> is the offset of the local zone
  in milliseconds, as in ECMAScript. The calendar functions below are the ones ECMAScript
  defines for time values (proleptic Gregorian calendar, days of 86400000 ms).
\<close>

record host =
  currentTime :: int
  LocalTZA :: "int \<Rightarrow> bool \<Rightarrow> int"

definition msPerDay :: int where
  "msPerDay = 86400000"

definition Day :: "int \<Rightarrow> int" where
  "Day t = t div msPerDay"

definition TimeWithinDay :: "int \<Rightarrow> int" where
  "TimeWithinDay t = t mod msPerDay"

definition DayFromYear :: "int \<Rightarrow> int" where
  "DayFromYear y =
     365 * (y - 1970) + (y - 1969) div 4 - (y - 1901) div 100 + (y - 1601) div 400"

text \<open>The year of a day number: the largest \<open>y\<close> with \<open>DayFromYear y \<le> d\<close>.\<close>

definition YearFromDay :: "int \<Rightarrow> int" where
  "YearFromDay d =
     (let y = 1970 + (d * 400) div 146097
      in if DayFromYear (y + 1) \<le> d then y + 1 else if d < DayFromYear y then y - 1 else y)"

definition YearFromTime :: "int \<Rightarrow> int" where
  "YearFromTime t = YearFromDay (Day t)"

definition leap_days :: "int \<Rightarrow> int" where
  "leap_days y = DayFromYear (y + 1) - DayFromYear y - 365"

definition month_starts :: "int \<Rightarrow> int list" where
  "month_starts y =
     (let l = leap_days y
      in [0, 31, 59 + l, 90 + l, 120 + l, 151 + l, 181 + l, 212 + l, 243 + l, 273 + l,
          304 + l, 334 + l])"

definition DayWithinYear :: "int \<Rightarrow> int" where
  "DayWithinYear t = Day t - DayFromYear (YearFromTime t)"

definition MonthFromTime :: "int \<Rightarrow> int" where
  "MonthFromTime t =
     int (length (filter (\<lambda>s. s \<le> DayWithinYear t) (month_starts (YearFromTime t)))) - 1"

definition DateFromTime :: "int \<Rightarrow> int" where
  "DateFromTime t =
     DayWithinYear t - month_starts (YearFromTime t) ! nat (MonthFromTime t) + 1"

definition HourFromTime :: "int \<Rightarrow> int" where
  "HourFromTime t = (t div 3600000) mod 24"

definition MinFromTime :: "int \<Rightarrow> int" where
  "MinFromTime t = (t div 60000) mod 60"

definition SecFromTime :: "int \<Rightarrow> int" where
  "SecFromTime t = (t div 1000) mod 60"

definition msFromTime :: "int \<Rightarrow> int" where
  "msFromTime t = t mod 1000"

definition MakeDay :: "int \<Rightarrow> int \<Rightarrow> int \<Rightarrow> int" where
  "MakeDay year month date =
     (let ym = year + month div 12; mn = month mod 12
      in DayFromYear ym + month_starts ym ! nat mn + date - 1)"

definition MakeDate :: "int \<Rightarrow> int \<Rightarrow> int" where
  "MakeDate day time = day * msPerDay + time"

text \<open>A Date holds a time value of at most \<open>8.64 * 10^15\<close> ms in size or NaN, here \<open>None\<close>.\<close>

definition TimeClip :: "int \<Rightarrow> int option" where
  "TimeClip t = (if \<bar>t\<bar> \<le> 8640000000000000 then Some t else None)"

definition LocalTime :: "host \<Rightarrow> int \<Rightarrow> int" where
  "LocalTime h t = t + LocalTZA h t True"

definition UTC :: "host \<Rightarrow> int \<Rightarrow> int" where
  "UTC h t = t - LocalTZA h t False"

text \<open>The methods of \<^verbatim>\<open>Date.prototype\<close> the program calls; all of them use local time.\<close>

fun getFullYear :: "host \<Rightarrow> int option \<Rightarrow> int option" where
  "getFullYear h None = None"
| "getFullYear h (Some t) = Some (YearFromTime (LocalTime h t))"

fun getMonth :: "host \<Rightarrow> int option \<Rightarrow> int option" where
  "getMonth h None = None"
| "getMonth h (Some t) = Some (MonthFromTime (LocalTime h t))"

fun getDate :: "host \<Rightarrow> int option \<Rightarrow> int option" where
  "getDate h None = None"
| "getDate h (Some t) = Some (DateFromTime (LocalTime h t))"

fun getHours :: "host \<Rightarrow> int option \<Rightarrow> int option" where
  "getHours h None = None"
| "getHours h (Some t) = Some (HourFromTime (LocalTime h t))"

fun getMinutes :: "host \<Rightarrow> int option \<Rightarrow> int option" where
  "getMinutes h None = None"
| "getMinutes h (Some t) = Some (MinFromTime (LocalTime h t))"

fun getSeconds :: "host \<Rightarrow> int option \<Rightarrow> int option" where
  "getSeconds h None = None"
| "getSeconds h (Some t) = Some (SecFromTime (LocalTime h t))"

fun getMilliseconds :: "host \<Rightarrow> int option \<Rightarrow> int option" where
  "getMilliseconds h None = None"
| "getMilliseconds h (Some t) = Some (msFromTime (LocalTime h t))"

text \<open>
  \<^verbatim>\<open>date.getTime()\<close>, and \<^verbatim>\<open>date.setFullYear(year)\<close> for a Number \<open>year\<close>, which
  gives the new time value of the Date.
\<close>

definition getTime :: "int option \<Rightarrow> number" where
  "getTime date = map_option of_int date"

definition setFullYear :: "host \<Rightarrow> int option \<Rightarrow> number \<Rightarrow> int option" where
  "setFullYear h date year =
     (let t = (case date of None \<Rightarrow> 0 | Some tv \<Rightarrow> LocalTime h tv)
      in case year of
           None \<Rightarrow> None
         | Some y \<Rightarrow>
             TimeClip (UTC h (MakeDate (MakeDay (truncate_number y) (MonthFromTime t) (DateFromTime t))
                                 (TimeWithinDay t))))"

text \<open>
  \<^verbatim>\<open>new Date(x)\<close> for a Number \<open>x\<close>: NaN and values out of range give an invalid
  Date, any other value is truncated towards zero.
\<close>

definition new_Date :: "number \<Rightarrow> int option" where
  "new_Date x =
     (case x of
        None \<Rightarrow> None
      | Some q \<Rightarrow> if \<bar>q\<bar> \<le> 8640000000000000 then Some (truncate_number q) else None)"

subsection \<open>Strings of numbers\<close>

function decimal :: "int \<Rightarrow> string" where
  "decimal n =
     (if n < 10 then [char_of (48 + n)] else decimal (n div 10) @ [char_of (48 + n mod 10)])"
  by pat_completeness auto
termination
  by (relation "measure nat") auto

text \<open>\<^verbatim>\<open>String(x)\<close> for an integer or NaN.\<close>

definition String :: "int option \<Rightarrow> string" where
  "String x =
     (case x of
        None \<Rightarrow> ''NaN''
      | Some n \<Rightarrow> if n < 0 then CHR ''-'' # decimal (- n) else decimal n)"

text \<open>\<^verbatim>\<open>s.padStart(targetLength, c)\<close> for a pad string of one character.\<close>

definition padStart :: "nat \<Rightarrow> char \<Rightarrow> string \<Rightarrow> string" where
  "padStart targetLength c s = replicate (targetLength - length s) c @ s"

subsection \<open>The generator\<close>

record ageLimit =
  min_age :: int
  max_age :: int

record dtoIn =
  count :: int
  age :: ageLimit

record dateRange =
  minDate :: "int option"
  maxDate :: "int option"
  range :: number

record nameLists =
  male_names :: "string list"
  female_names :: "string list"

definition getNameLists :: nameLists where
  "getNameLists =
     \<lparr>male_names =
        [''Jan'',
         ''Petr'',
         ''Pavel'',
         ''Ji'' @ [CHR 0xC5, CHR 0x99, CHR 0xC3, CHR 0xAD],
         ''Josef'',
         ''Tom'' @ [CHR 0xC3, CHR 0xA1, CHR 0xC5, CHR 0xA1],
         ''Martin'',
         ''Jaroslav'',
         ''Miroslav'',
         ''Franti'' @ [CHR 0xC5, CHR 0xA1] @ ''ek'',
         ''V'' @ [CHR 0xC3, CHR 0xA1] @ ''clav'',
         ''Karel'',
         ''Milan'',
         ''David'',
         ''Michal'',
         ''Vratislav'',
         ''Zden'' @ [CHR 0xC4, CHR 0x9B] @ ''k'',
         ''Luk'' @ [CHR 0xC3, CHR 0xA1, CHR 0xC5, CHR 0xA1],
         ''Marek'',
         ''Jakub'',
         ''Ond'' @ [CHR 0xC5, CHR 0x99] @ ''ej'',
         ''Stanislav''],
      female_names =
        [''Jana'',
         ''Marie'',
         ''Eva'',
         ''Anna'',
         ''Hana'',
         ''V'' @ [CHR 0xC4, CHR 0x9B] @ ''ra'',
         ''Alena'',
         ''Lenka'',
         ''Petra'',
         ''Jitka'',
         ''Martina'',
         ''Kate'' @ [CHR 0xC5, CHR 0x99] @ ''ina'',
         ''Lucie'',
         ''Monika'',
         ''Aneta'',
         ''Ji'' @ [CHR 0xC5, CHR 0x99] @ ''ina'',
         ''Ivana'',
         ''Veronika'',
         ''Tereza'',
         ''Barbora'',
         ''Zuzana'',
         ''Michaela'']\<rparr>"

definition getSurnameList :: "string list" where
  "getSurnameList =
     [''Nov'' @ [CHR 0xC3, CHR 0xA1] @ ''k'',
      ''Svoboda'',
      ''Novotn'' @ [CHR 0xC3, CHR 0xBD],
      ''Dvo'' @ [CHR 0xC5, CHR 0x99, CHR 0xC3, CHR 0xA1] @ ''k'',
      [CHR 0xC4, CHR 0x8C] @ ''ern'' @ [CHR 0xC3, CHR 0xBD],
      ''Proch'' @ [CHR 0xC3, CHR 0xA1] @ ''zka'',
      ''Ku'' @ [CHR 0xC4, CHR 0x8D] @ ''era'',
      ''Vesel'' @ [CHR 0xC3, CHR 0xBD],
      ''Hor'' @ [CHR 0xC3, CHR 0xA1] @ ''k'',
      ''N'' @ [CHR 0xC4, CHR 0x9B] @ ''mec'',
      ''Marek'',
      ''Posp'' @ [CHR 0xC3, CHR 0xAD, CHR 0xC5, CHR 0xA1] @ ''il'',
      ''Pokorn'' @ [CHR 0xC3, CHR 0xBD],
      ''H'' @ [CHR 0xC3, CHR 0xA1] @ ''jek'',
      ''Kr'' @ [CHR 0xC3, CHR 0xA1] @ ''l'',
      ''Jel'' @ [CHR 0xC3, CHR 0xAD] @ ''nek'',
      ''R'' @ [CHR 0xC5, CHR 0xAF, CHR 0xC5, CHR 0xBE] @ ''i'' @ [CHR 0xC4, CHR 0x8D] @ ''ka'',
      ''Bene'' @ [CHR 0xC5, CHR 0xA1],
      ''Fiala'',
      ''Sedl'' @ [CHR 0xC3, CHR 0xA1, CHR 0xC4, CHR 0x8D] @ ''ek'',
      ''Dole'' @ [CHR 0xC5, CHR 0xBE] @ ''al'',
      ''Zeman'',
      ''Kol'' @ [CHR 0xC3, CHR 0xA1, CHR 0xC5, CHR 0x99],
      ''Navr'' @ [CHR 0xC3, CHR 0xA1] @ ''til'',
      [CHR 0xC4, CHR 0x8C] @ ''erm'' @ [CHR 0xC3, CHR 0xA1] @ ''k'',
      ''S'' @ [CHR 0xC3, CHR 0xBD] @ ''kora'',
      ''Pt'' @ [CHR 0xC3, CHR 0xA1, CHR 0xC4, CHR 0x8D] @ ''ek'',
      ''Urban'',
      ''Krej'' @ [CHR 0xC4, CHR 0x8D, CHR 0xC3, CHR 0xAD],
      ''Van'' @ [CHR 0xC4, CHR 0x9B] @ ''k'']"

definition calculateDateRange :: "host \<Rightarrow> dtoIn \<Rightarrow> dateRange" where
  "calculateDateRange h dto =
     (let now = Some (currentTime h);
          minDate = setFullYear h now
            (number_minus (map_option of_int (getFullYear h now)) (Some (of_int (max_age (age dto)))));
          maxDate = setFullYear h now
            (number_minus (map_option of_int (getFullYear h now)) (Some (of_int (min_age (age dto)))))
      in \<lparr>minDate = minDate, maxDate = maxDate,
          range = number_minus (getTime maxDate) (getTime minDate)\<rparr>)"

definition formatDateToISO :: "host \<Rightarrow> int option \<Rightarrow> string" where
  "formatDateToISO h date =
     (let year = getFullYear h date;
          month = padStart 2 CHR ''0'' (String (map_option (\<lambda>m. m + 1) (getMonth h date)));
          day = padStart 2 CHR ''0'' (String (getDate h date));
          hours = padStart 2 CHR ''0'' (String (getHours h date));
          minutes = padStart 2 CHR ''0'' (String (getMinutes h date));
          seconds = padStart 2 CHR ''0'' (String (getSeconds h date));
          milliseconds = padStart 3 CHR ''0'' (String (getMilliseconds h date))
      in String year @ ''-'' @ month @ ''-'' @ day @ ''T'' @ hours @ '':'' @ minutes @ '':''
           @ seconds @ ''.'' @ milliseconds @ ''Z'')"

text \<open>
  The random source is the stream of the values \<^verbatim>\<open>Math.random()\<close> returns, each a
  double in \<open>[0, 1)\<close>; a call takes the head of the stream. The expression
  \<^verbatim>\<open>dateRange.minDate.getTime() + Math.random() * dateRange.range\<close> of line 220, for
  the draw \<open>r\<close>:
\<close>

definition randomTime :: "dateRange \<Rightarrow> rat \<Rightarrow> number" where
  "randomTime dr r = number_plus (getTime (minDate dr)) (number_times (Some r) (range dr))"

text \<open>
  The loop of \<^verbatim>\<open>generateUniqueBirthdate\<close> ends only when a draw gives an unused
  string, so the function is partial: \<open>None\<close> is the run that never leaves the loop. It
  returns the string, the updated set and the rest of the random source.
\<close>

partial_function (option) generateUniqueBirthdate ::
  "host \<Rightarrow> dateRange \<Rightarrow> string set \<Rightarrow> rat stream
     \<Rightarrow> (string \<times> string set \<times> rat stream) option"
where
  "generateUniqueBirthdate h dr usedBirthdates rng =
     (let birthdate = new_Date (randomTime dr (shd rng));
          birthdateStr = formatDateToISO h birthdate
      in if birthdateStr \<in> usedBirthdates
         then generateUniqueBirthdate h dr usedBirthdates (stl rng)
         else Some (birthdateStr, insert birthdateStr usedBirthdates, stl rng))"

text \<open>
  \<^verbatim>\<open>list[Math.floor(Math.random() * list.length)]\<close> for the draw \<open>r\<close>. The product
  is a double below the length of the list, far from an overflow, and with \<open>0 \<le> r < 1\<close>,
  which \<^verbatim>\<open>Math.random\<close> guarantees, the index is within the list.
\<close>

definition random_element :: "'a list \<Rightarrow> rat \<Rightarrow> 'a" where
  "random_element xs r = xs ! nat \<lfloor>round_double (r * of_nat (length xs))\<rfloor>"

definition createEmployee ::
  "host \<Rightarrow> nameLists \<Rightarrow> string list \<Rightarrow> dateRange \<Rightarrow> string set \<Rightarrow> rat stream
     \<Rightarrow> (employee \<times> string set \<times> rat stream) option" where
  "createEmployee h nameLists surnames dr usedBirthdates rng =
     (let g = (if shd rng < 1 / 2 then ''male'' else ''female'');
          rng1 = stl rng;
          workloads = [10, 20, 30, 40];
          w = random_element workloads (shd rng1);
          rng2 = stl rng1;
          nameList = (if g = ''male'' then male_names nameLists else female_names nameLists);
          n = random_element nameList (shd rng2);
          rng3 = stl rng2;
          s = random_element surnames (shd rng3);
          rng4 = stl rng3
      in case generateUniqueBirthdate h dr usedBirthdates rng4 of
           None \<Rightarrow> None
         | Some (b, used, rng5) \<Rightarrow>
             Some (\<lparr>gender = g, birthdate = b, name = n, surname = s, workload = w\<rparr>,
                   used, rng5))"

text \<open>The \<^verbatim>\<open>for\<close> loop of \<^verbatim>\<open>generateEmployeeData\<close> (lines 25 to 28).\<close>

function generateEmployeeData_loop ::
  "host \<Rightarrow> nameLists \<Rightarrow> string list \<Rightarrow> dateRange \<Rightarrow> int \<Rightarrow> int \<Rightarrow> employee list
     \<Rightarrow> string set \<Rightarrow> rat stream \<Rightarrow> employee list option" where
  "generateEmployeeData_loop h nameLists surnames dr n i employees usedBirthdates rng =
     (if i < n then
        (case createEmployee h nameLists surnames dr usedBirthdates rng of
           None \<Rightarrow> None
         | Some (employee, used, rng') \<Rightarrow>
             generateEmployeeData_loop h nameLists surnames dr n (i + 1)
               (employees @ [employee]) used rng')
      else Some employees)"
  by pat_completeness auto
termination
  by (relation "measure (\<lambda>(h, nameLists, surnames, dr, n, i, employees, used, rng). nat (n - i))")
     auto

declare generateEmployeeData_loop.simps [simp del]

definition generateEmployeeData :: "host \<Rightarrow> dtoIn \<Rightarrow> rat stream \<Rightarrow> employee list option" where
  "generateEmployeeData h dto rng =
     (let nameLists = getNameLists;
          surnames = getSurnameList;
          dateRange = calculateDateRange h dto
      in generateEmployeeData_loop h nameLists surnames dateRange (count dto) 0 [] {} rng)"

definition main :: "host \<Rightarrow> dtoIn \<Rightarrow> rat stream \<Rightarrow> dtoOut option" where
  "main h dto rng = map_option getEmployeeChartContent (generateEmployeeData h dto rng)"

section \<open>Vocabulary of the statements\<close>

subsection \<open>Buckets and their members\<close>

datatype bucket = All | Male | Female | FemalePartTime | MaleFullTime

fun pick :: "bucket \<Rightarrow> 'a buckets \<Rightarrow> 'a" where
  "pick All b = all b"
| "pick Male b = male b"
| "pick Female b = female b"
| "pick FemalePartTime b = femalePartTime b"
| "pick MaleFullTime b = maleFullTime b"

text \<open>The employees a bucket counts, by the branches of lines 78 to 89.\<close>

fun in_bucket :: "bucket \<Rightarrow> employee \<Rightarrow> bool" where
  "in_bucket All e = True"
| "in_bucket Male e = (gender e = ''male'')"
| "in_bucket Female e = (gender e \<noteq> ''male'')"
| "in_bucket FemalePartTime e = (gender e \<noteq> ''male'' \<and> workload e \<noteq> 40)"
| "in_bucket MaleFullTime e = (gender e = ''male'' \<and> workload e = 40)"

text \<open>The names a bucket receives, in input order and with repetitions.\<close>

definition members :: "bucket \<Rightarrow> employee list \<Rightarrow> string list" where
  "members X es = map name (filter (in_bucket X) es)"


subsection \<open>Kinds of property keys\<close>

text \<open>
  A key that \<^verbatim>\<open>Object.prototype\<close> does not define: reading it from \<^verbatim>\<open>{}\<close> gives
  \<^verbatim>\<open>undefined\<close>. A plain key is moreover no array index, so that it is enumerated in
  creation order.
\<close>

definition own_key :: "string \<Rightarrow> bool" where
  "own_key k \<longleftrightarrow> k \<noteq> ''__proto__'' \<and> map_of prototype_functions k = None"

definition plain_key :: "string \<Rightarrow> bool" where
  "plain_key k \<longleftrightarrow> own_key k \<and> \<not> is_array_index k"

subsection \<open>Counts and their order\<close>

text \<open>The distinct elements of a list in the order of their first occurrence.\<close>

fun first_seen :: "'a list \<Rightarrow> 'a list" where
  "first_seen [] = []"
| "first_seen (x # xs) = x # removeAll x (first_seen xs)"

text \<open>The counting object of a list of names: every name once, in first-seen order.\<close>

definition tally :: "string list \<Rightarrow> jsobj" where
  "tally ks = map (\<lambda>k. (k, JNum (count_list ks k))) (first_seen ks)"

fun is_count :: "jsval \<Rightarrow> bool" where
  "is_count (JNum n) = True"
| "is_count (JStr s) = False"

fun count_of :: "jsval \<Rightarrow> nat" where
  "count_of (JNum n) = n"
| "count_of (JStr s) = 0"

text \<open>\<^verbatim>\<open>a >= b\<close> on the values of a bucket; it is false as soon as one side is not a number.\<close>

fun count_ge :: "jsval \<Rightarrow> jsval \<Rightarrow> bool" where
  "count_ge (JNum m) (JNum n) = (n \<le> m)"
| "count_ge _ _ = False"

definition sum_counts :: "jsobj \<Rightarrow> nat" where
  "sum_counts obj = sum_list (map (\<lambda>p. count_of (snd p)) obj)"

definition sort_rank :: "string \<times> jsval \<Rightarrow> int" where
  "sort_rank p = - int (count_of (snd p))"

definition to_chart :: "string \<times> jsval \<Rightarrow> chart" where
  "to_chart p = \<lparr>label = fst p, val = snd p\<rparr>"

subsection \<open>Sample inputs\<close>

definition sample_employee :: "string \<Rightarrow> string \<Rightarrow> int \<Rightarrow> employee" where
  "sample_employee g n w =
     \<lparr>gender = g, birthdate = ''2000-01-01T00:00:00.000Z'', name = n, surname = ''Urban'',
      workload = w\<rparr>"

text \<open>The aggregation scenario of the specification (section 8).\<close>

definition scenario :: "employee list" where
  "scenario =
     [sample_employee ''male'' ''Jan'' 40,
      sample_employee ''male'' ''Jan'' 40,
      sample_employee ''female'' ''Eva'' 10]"


text \<open>Two names that are array indices, the second one counted twice.\<close>

definition indexed :: "employee list" where
  "indexed =
     [sample_employee ''male'' ''1'' 40,
      sample_employee ''male'' ''2'' 40,
      sample_employee ''female'' ''2'' 10]"

text \<open>Gender fields that are none of the two strings the generator writes.\<close>

definition odd_genders :: "employee list" where
  "odd_genders =
     [sample_employee ''other'' ''Eva'' 10,
      sample_employee ''male'' ''Jan'' 40,
      sample_employee ''Male'' ''Eva'' 40]"

text \<open>Four employees with a tie between two names that come after the most frequent one.\<close>

definition tied :: "employee list" where
  "tied =
     [sample_employee ''male'' ''Petr'' 40,
      sample_employee ''female'' ''Eva'' 10,
      sample_employee ''male'' ''Jan'' 20,
      sample_employee ''female'' ''Eva'' 40]"

subsection \<open>Birthdate candidates\<close>

text \<open>The string one pass of the loop of \<^verbatim>\<open>generateUniqueBirthdate\<close> computes from a draw.\<close>

definition candidate :: "host \<Rightarrow> dateRange \<Rightarrow> rat \<Rightarrow> string" where
  "candidate h dr r = formatDateToISO h (new_Date (randomTime dr r))"

text \<open>
  The next \<open>k\<close> employees all find their first birthdate draw unused. An employee takes
  four draws (gender, workload, name, surname) before the first draw of its birthdate.
\<close>

fun first_draws_unused ::
  "host \<Rightarrow> dateRange \<Rightarrow> string set \<Rightarrow> rat stream \<Rightarrow> nat \<Rightarrow> bool" where
  "first_draws_unused h dr used rng 0 = True"
| "first_draws_unused h dr used rng (Suc k) =
     (let rng4 = stl (stl (stl (stl rng))); b = candidate h dr (shd rng4)
      in b \<notin> used \<and> first_draws_unused h dr (insert b used) (stl rng4) k)"

text \<open>
  The birthdate text the specification asks for (section 3): the ISO-8601 text of the
  instant \<open>t\<close> with millisecond precision in UTC, \<^verbatim>\<open>YYYY-MM-DDTHH:mm:ss.sssZ\<close>, for the
  years 0 to 9999. It is what \<^verbatim>\<open>Date.prototype.toISOString\<close> prints.
\<close>

definition iso8601_utc :: "int \<Rightarrow> string" where
  "iso8601_utc t =
     padStart 4 CHR ''0'' (String (Some (YearFromTime t))) @ ''-''
     @ padStart 2 CHR ''0'' (String (Some (MonthFromTime t + 1))) @ ''-''
     @ padStart 2 CHR ''0'' (String (Some (DateFromTime t))) @ ''T''
     @ padStart 2 CHR ''0'' (String (Some (HourFromTime t))) @ '':''
     @ padStart 2 CHR ''0'' (String (Some (MinFromTime t))) @ '':''
     @ padStart 2 CHR ''0'' (String (Some (SecFromTime t))) @ ''.''
     @ padStart 3 CHR ''0'' (String (Some (msFromTime t))) @ ''Z''"

subsection \<open>Sample hosts, configurations and random sources\<close>

text \<open>
  A host whose local time is one hour ahead of UTC throughout and whose clock reads
  2026-11-02T12:34:56.789 UTC.
\<close>

definition host_utc1 :: host where
  "host_utc1 = \<lparr>currentTime = 1793622896789, LocalTZA = (\<lambda>t isUTC. 3600000)\<rparr>"

text \<open>
  A random source that starts with the given draws and goes on with \<open>0\<close> forever. The
  draws used below are multiples of \<open>1/32\<close>, hence doubles, and their products with the
  range of the sample window are integers: nothing is rounded in the sample runs.
\<close>

definition draws :: "rat list \<Rightarrow> rat stream" where
  "draws rs = rs @- sconst 0"

definition twenties :: dtoIn where
  "twenties = \<lparr>count = 2, age = \<lparr>min_age = 20, max_age = 30\<rparr>\<rparr>"

text \<open>The configuration \<^verbatim>\<open>{count: n, age: {min: 0, max: 0}}\<close>.\<close>

definition zero_span :: "int \<Rightarrow> dtoIn" where
  "zero_span n = \<lparr>count = n, age = \<lparr>min_age = 0, max_age = 0\<rparr>\<rparr>"

text \<open>The second employee draws the birthdate of the first one and draws again.\<close>

definition colliding_draws :: "rat stream" where
  "colliding_draws = draws [1/4, 3/4, 1/2, 29/32, 3/8, 3/4, 1/4, 1/8, 29/32, 3/8, 5/8]"

definition fresh_draws :: "rat stream" where
  "fresh_draws = draws [1/4, 3/4, 1/2, 29/32, 1/8, 3/4, 1/4, 1/8, 29/32, 7/8]"

section \<open>The aggregator\<close>

subsection \<open>Every bucket is the tally of its members\<close>

lemma set_first_seen [simp]: "set (first_seen xs) = set xs"
  by (induction xs) auto

lemma distinct_first_seen [simp]: "distinct (first_seen xs)"
  by (induction xs) (auto simp: distinct_removeAll)

lemma first_seen_snoc:
  "first_seen (xs @ [k]) = (if k \<in> set xs then first_seen xs else first_seen xs @ [k])"
  by (induction xs) auto

lemma pick_step:
  "pick X (countNamesByCategory_step e nc) =
     (if in_bucket X e then increment (pick X nc) (name e) else pick X nc)"
  by (cases X) (simp_all add: countNamesByCategory_step_def Let_def)

lemma pick_countNamesByCategory:
  "pick X (countNamesByCategory es nc) =
     fold (\<lambda>k obj. increment obj k) (members X es) (pick X nc)"
  by (induction es arbitrary: nc) (simp_all add: members_def pick_step)

lemma pick_initializeNameCounts: "pick X initializeNameCounts = []"
  by (cases X) (simp_all add: initializeNameCounts_def)

lemma map_of_tally:
  "map_of (tally ks) k = (if k \<in> set ks then Some (JNum (count_list ks k)) else None)"
  by (simp add: tally_def map_of_map_restrict restrict_map_def)

lemma update_keyed_map:
  "k \<in> set xs \<Longrightarrow> distinct xs \<Longrightarrow>
   AList.update k v (map (\<lambda>x. (x, g x)) xs) = map (\<lambda>x. (x, if x = k then v else g x)) xs"
  by (induction xs) auto

lemma update_keyed_map_new:
  "k \<notin> set xs \<Longrightarrow>
   AList.update k v (map (\<lambda>x. (x, g x)) xs) = map (\<lambda>x. (x, g x)) xs @ [(k, v)]"
  by (induction xs) auto

lemma increment_tally:
  assumes "own_key k"
  shows "increment (tally ks) k = tally (ks @ [k])"
proof (cases "k \<in> set ks")
  case True
  have "increment (tally ks) k = AList.update k (JNum (count_list ks k + 1)) (tally ks)"
    using assms True by (simp add: increment_def js_set_def js_get_def map_of_tally own_key_def)
  also have "\<dots> = tally (ks @ [k])"
    using True by (simp add: tally_def update_keyed_map first_seen_snoc)
  finally show ?thesis .
next
  case False
  have "increment (tally ks) k = AList.update k (JNum 1) (tally ks)"
    using assms False by (simp add: increment_def js_set_def js_get_def map_of_tally own_key_def)
  also have "\<dots> = tally (ks @ [k])"
    using False by (auto simp: tally_def update_keyed_map_new first_seen_snoc)
  finally show ?thesis .
qed

lemma fold_increment_tally:
  "list_all own_key ks \<Longrightarrow> fold (\<lambda>k obj. increment obj k) ks [] = tally ks"
proof (induction ks rule: rev_induct)
  case Nil
  show ?case by (simp add: tally_def)
next
  case (snoc k ks)
  then show ?case by (simp add: increment_tally)
qed

lemma bucket_tally:
  assumes "\<forall>e\<in>set es. own_key (name e)"
  shows "pick X (countNamesByCategory es initializeNameCounts) = tally (members X es)"
proof -
  have "list_all own_key (members X es)"
    using assms by (simp add: members_def list_all_iff)
  thus ?thesis
    by (simp add: pick_countNamesByCategory pick_initializeNameCounts fold_increment_tally)
qed

lemma is_count_tally: "\<forall>p\<in>set (tally ks). is_count (snd p)"
  by (auto simp: tally_def)

lemma distinct_tally: "distinct (map fst (tally ks))"
  by (simp add: tally_def comp_def)

lemma count_list_map_filter:
  "count_list (map f xs) k = length (filter (\<lambda>x. f x = k) xs)"
  by (induction xs) auto

lemma count_list_members:
  "count_list (members X es) k = length (filter (\<lambda>e. name e = k \<and> in_bucket X e) es)"
  by (simp add: members_def count_list_map_filter conj_commute)

lemma sum_count_first_seen: "sum_list (map (count_list ks) (first_seen ks)) = length ks"
  by (simp add: sum_list_distinct_conv_sum_set sum_count_set)

lemma sum_counts_tally: "sum_counts (tally ks) = length ks"
  using sum_count_first_seen[of ks] by (simp add: sum_counts_def tally_def comp_def)

lemma sum_counts_mset:
  assumes "mset xs = mset ys"
  shows "sum_counts xs = sum_counts ys"
proof -
  from assms
  have "mset (map (\<lambda>p. count_of (snd p)) xs) = mset (map (\<lambda>p. count_of (snd p)) ys)"
    by simp
  hence "sum_mset (mset (map (\<lambda>p. count_of (snd p)) xs))
           = sum_mset (mset (map (\<lambda>p. count_of (snd p)) ys))"
    by (rule arg_cong)
  thus ?thesis by (simp only: sum_counts_def sum_mset_sum_list)
qed

subsection \<open>Keys of a bucket\<close>

lemma distinct_keys_increment:
  "distinct (map fst obj) \<Longrightarrow> distinct (map fst (increment obj k))"
  by (simp add: increment_def js_set_def distinct_update)

lemma keys_increment:
  "set (map fst (increment obj k)) \<subseteq> insert k (set (map fst obj))"
  by (auto simp: increment_def js_set_def update_keys simp del: set_map)

lemma fold_increment_keys:
  "distinct (map fst obj) \<Longrightarrow>
   distinct (map fst (fold (\<lambda>k obj. increment obj k) ks obj)) \<and>
   set (map fst (fold (\<lambda>k obj. increment obj k) ks obj)) \<subseteq> set ks \<union> set (map fst obj)"
proof (induction ks arbitrary: obj)
  case Nil
  then show ?case by simp
next
  case (Cons k ks)
  from Cons.IH[OF distinct_keys_increment[OF Cons.prems], of k] keys_increment[of obj k]
  show ?case by (simp del: set_map) blast
qed

lemma bucket_keys:
  "distinct (map fst (pick X (countNamesByCategory es initializeNameCounts))) \<and>
   set (map fst (pick X (countNamesByCategory es initializeNameCounts))) \<subseteq> name ` set es"
proof -
  have "set (members X es) \<subseteq> name ` set es"
    by (auto simp: members_def)
  with fold_increment_keys[of "[]" "members X es"] show ?thesis
    by (simp add: pick_countNamesByCategory pick_initializeNameCounts del: set_map) blast
qed

subsection \<open>Enumeration and sorting\<close>

lemma mset_insert_sorted: "mset (insert_sorted cmp x xs) = add_mset x (mset xs)"
  by (induction xs) auto

lemma mset_Array_sort: "mset (Array_sort cmp xs) = mset xs"
  by (induction xs) (auto simp: Array_sort_def mset_insert_sorted)

lemma set_Array_sort: "set (Array_sort cmp xs) = set xs"
  using mset_Array_sort[of cmp xs] by (rule mset_eq_setD)

lemma mset_Object_entries: "mset (Object_entries obj) = mset obj"
  by (simp add: Object_entries_def)

lemma set_Object_entries: "set (Object_entries obj) = set obj"
  using mset_Object_entries[of obj] by (rule mset_eq_setD)

lemma Object_entries_plain:
  "\<forall>p\<in>set obj. \<not> is_array_index (fst p) \<Longrightarrow> Object_entries obj = obj"
  by (simp add: Object_entries_def filter_empty_conv)

lemma distinct_keys_mset:
  "mset xs = mset ys \<Longrightarrow> distinct (map fst xs) \<Longrightarrow> distinct (map fst ys)"
  by (metis distinct_map mset_eq_imp_distinct_iff set_mset_mset)

lemma foldl_update_distinct:
  "distinct (map fst (acc @ xs)) \<Longrightarrow>
   foldl (\<lambda>obj (k, v). AList.update k v obj) acc xs = acc @ xs"
proof (induction xs arbitrary: acc)
  case Nil
  show ?case by simp
next
  case (Cons p xs)
  obtain k v where p: "p = (k, v)" by (cases p)
  from Cons.prems p have "k \<notin> fst ` set acc" by auto
  hence upd: "AList.update k v acc = acc @ [(k, v)]"
    by (induction acc) auto
  from Cons.prems have "distinct (map fst ((acc @ [p]) @ xs))" by simp
  from Cons.IH[OF this] show ?case using p upd by simp
qed

lemma Object_fromEntries_distinct:
  "distinct (map fst xs) \<Longrightarrow> Object_fromEntries xs = xs"
  using foldl_update_distinct[of "[]" xs] by (simp add: Object_fromEntries_def)

lemma insert_sorted_insort_key:
  "is_count (snd x) \<Longrightarrow> \<forall>y\<in>set ys. is_count (snd y) \<Longrightarrow>
   insert_sorted compare_entries x ys = insort_key sort_rank x ys"
proof (induction ys)
  case Nil
  show ?case by simp
next
  case (Cons y ys)
  obtain m where m: "snd x = JNum m" using Cons.prems(1) by (cases "snd x") auto
  obtain n where n: "snd y = JNum n" using Cons.prems(2) by (cases "snd y") auto
  show ?case using Cons m n by (simp add: compare_entries_def sort_rank_def)
qed

lemma Array_sort_sort_key:
  "\<forall>y\<in>set xs. is_count (snd y) \<Longrightarrow> Array_sort compare_entries xs = sort_key sort_rank xs"
proof (induction xs)
  case Nil
  show ?case by (simp add: Array_sort_def)
next
  case (Cons x xs)
  hence IH: "Array_sort compare_entries xs = sort_key sort_rank xs" by simp
  have "Array_sort compare_entries (x # xs)
          = insert_sorted compare_entries x (sort_key sort_rank xs)"
    using IH by (simp add: Array_sort_def)
  also have "\<dots> = insort_key sort_rank x (sort_key sort_rank xs)"
    using Cons.prems by (intro insert_sorted_insort_key) auto
  finally show ?case by (simp add: sort_key_def)
qed

lemma sorted_rank_successively:
  "\<forall>p\<in>set xs. is_count (snd p) \<Longrightarrow> sorted (map sort_rank xs) \<Longrightarrow>
   successively count_ge (map snd xs)"
proof (induction xs rule: induct_list012)
  case 1
  show ?case by simp
next
  case (2 x)
  show ?case by simp
next
  case (3 x y zs)
  obtain m where m: "snd x = JNum m" using "3.prems"(1) by (cases "snd x") auto
  obtain n where n: "snd y = JNum n" using "3.prems"(1) by (cases "snd y") auto
  from "3.prems" have "successively count_ge (map snd (y # zs))"
    by (intro "3.IH") auto
  moreover from "3.prems"(2) m n have "count_ge (snd x) (snd y)"
    by (simp add: sort_rank_def)
  ultimately show ?case by simp
qed

lemma sorted_entries_descending:
  assumes "\<forall>p\<in>set xs. is_count (snd p)"
  shows "successively count_ge (map snd (sort_key sort_rank xs))"
  using assms by (intro sorted_rank_successively) simp_all

lemma filter_count_sorted:
  assumes "\<forall>p\<in>set xs. is_count (snd p)"
  shows "filter (\<lambda>p. snd p = JNum c) (sort_key sort_rank xs) = filter (\<lambda>p. snd p = JNum c) xs"
proof -
  have eq: "\<And>p. p \<in> set xs \<Longrightarrow> (snd p = JNum c) = (sort_rank p = - int c)"
  proof -
    fix p assume "p \<in> set xs"
    with assms obtain n where "snd p = JNum n" by (cases "snd p") auto
    thus "(snd p = JNum c) = (sort_rank p = - int c)" by (simp add: sort_rank_def)
  qed
  have "filter (\<lambda>p. snd p = JNum c) (sort_key sort_rank xs)
          = filter (\<lambda>p. sort_rank p = - int c) (sort_key sort_rank xs)"
    by (rule filter_cong) (simp_all add: eq)
  also have "\<dots> = filter (\<lambda>p. sort_rank p = - int c) xs"
    by (rule sort_key_stable)
  also have "\<dots> = filter (\<lambda>p. snd p = JNum c) xs"
    by (rule filter_cong) (simp_all add: eq)
  finally show ?thesis .
qed

lemma filter_tally:
  "map fst (filter (\<lambda>p. snd p = JNum c) (tally ks)) =
     filter (\<lambda>k. count_list ks k = c) (first_seen ks)"
  by (simp add: tally_def filter_map comp_def)

lemma val_to_chart: "map val (map to_chart xs) = map snd xs"
  by (simp add: to_chart_def comp_def)

lemma label_to_chart: "map label (map to_chart xs) = map fst xs"
  by (simp add: to_chart_def comp_def)

subsection \<open>The two views of a bucket\<close>

lemma pick_names:
  "pick X (names (getEmployeeChartContent es)) =
     sortNamesObject (pick X (countNamesByCategory es initializeNameCounts))"
  by (cases X)
     (simp_all add: getEmployeeChartContent_def analyzeEmployeeNames_def createDtoOut_def Let_def)

lemma pick_chartData:
  "pick X (chartData (getEmployeeChartContent es)) =
     sortAndConvertToChartData (pick X (countNamesByCategory es initializeNameCounts))"
  by (cases X)
     (simp_all add: getEmployeeChartContent_def analyzeEmployeeNames_def createDtoOut_def Let_def)

lemma sortNamesObject_distinct:
  assumes "distinct (map fst obj)"
  shows "sortNamesObject obj = Array_sort compare_entries (Object_entries obj)"
proof -
  have "mset (Array_sort compare_entries (Object_entries obj)) = mset obj"
    by (simp add: mset_Array_sort mset_Object_entries)
  hence "distinct (map fst (Array_sort compare_entries (Object_entries obj)))"
    using assms distinct_keys_mset by metis
  thus ?thesis by (simp add: sortNamesObject_def Object_fromEntries_distinct)
qed

lemma names_sorted_entries:
  "pick X (names (getEmployeeChartContent es)) =
     Array_sort compare_entries
       (Object_entries (pick X (countNamesByCategory es initializeNameCounts)))"
  using bucket_keys[of X es] by (simp add: pick_names sortNamesObject_distinct)

lemma chartData_sorted_entries:
  "pick X (chartData (getEmployeeChartContent es)) =
     map to_chart (Array_sort compare_entries
       (Object_entries (pick X (countNamesByCategory es initializeNameCounts))))"
  by (simp add: pick_chartData sortAndConvertToChartData_def to_chart_def case_prod_unfold)

lemma names_own:
  assumes "\<forall>e\<in>set es. own_key (name e)"
  shows "pick X (names (getEmployeeChartContent es)) =
           sort_key sort_rank (Object_entries (tally (members X es)))"
proof -
  have "\<forall>p\<in>set (Object_entries (tally (members X es))). is_count (snd p)"
    using is_count_tally by (simp add: set_Object_entries)
  thus ?thesis
    by (simp add: names_sorted_entries bucket_tally[OF assms] Array_sort_sort_key)
qed

lemma chartData_own:
  assumes "\<forall>e\<in>set es. own_key (name e)"
  shows "pick X (chartData (getEmployeeChartContent es)) =
           map to_chart (sort_key sort_rank (Object_entries (tally (members X es))))"
proof -
  have "\<forall>p\<in>set (Object_entries (tally (members X es))). is_count (snd p)"
    using is_count_tally by (simp add: set_Object_entries)
  thus ?thesis
    by (simp add: chartData_sorted_entries bucket_tally[OF assms] Array_sort_sort_key)
qed

lemma plain_entries:
  assumes "\<forall>e\<in>set es. \<not> is_array_index (name e)"
  shows "Object_entries (tally (members X es)) = tally (members X es)"
proof (rule Object_entries_plain)
  show "\<forall>p\<in>set (tally (members X es)). \<not> is_array_index (fst p)"
    using assms by (auto simp: tally_def members_def)
qed

lemma names_plain:
  assumes "\<forall>e\<in>set es. plain_key (name e)"
  shows "Object_entries (pick X (names (getEmployeeChartContent es)))
           = sort_key sort_rank (tally (members X es))"
proof -
  from assms have own: "\<forall>e\<in>set es. own_key (name e)"
    and plain: "\<forall>e\<in>set es. \<not> is_array_index (name e)"
    by (simp_all add: plain_key_def)
  have "\<forall>p\<in>set (sort_key sort_rank (tally (members X es))). \<not> is_array_index (fst p)"
    using plain by (auto simp: tally_def members_def)
  thus ?thesis
    by (simp add: names_own[OF own] plain_entries[OF plain] Object_entries_plain)
qed

lemma mset_names_own:
  assumes "\<forall>e\<in>set es. own_key (name e)"
  shows "mset (pick X (names (getEmployeeChartContent es))) = mset (tally (members X es))"
  by (simp add: names_own[OF assms] mset_Object_entries)

lemma map_of_names_own:
  assumes "\<forall>e\<in>set es. own_key (name e)"
  shows "map_of (pick X (names (getEmployeeChartContent es))) k =
           (if k \<in> set (members X es) then Some (JNum (count_list (members X es) k)) else None)"
proof -
  have m: "mset (pick X (names (getEmployeeChartContent es))) = mset (tally (members X es))"
    by (rule mset_names_own[OF assms])
  hence d: "distinct (map fst (pick X (names (getEmployeeChartContent es))))"
    using distinct_keys_mset[OF _ distinct_tally] by simp
  from m have "set (pick X (names (getEmployeeChartContent es))) = set (tally (members X es))"
    by (rule mset_eq_setD)
  hence "map_of (pick X (names (getEmployeeChartContent es))) = map_of (tally (members X es))"
    using d distinct_tally by (simp add: map_of_inject_set)
  thus ?thesis by (simp add: map_of_tally)
qed

lemma sum_counts_names_own:
  assumes "\<forall>e\<in>set es. own_key (name e)"
  shows "sum_counts (pick X (names (getEmployeeChartContent es))) = length (members X es)"
  using sum_counts_mset[OF mset_names_own[OF assms, of X]] by (simp add: sum_counts_tally)

lemma is_count_names_own:
  assumes "\<forall>e\<in>set es. own_key (name e)"
  shows "\<forall>p\<in>set (pick X (names (getEmployeeChartContent es))). is_count (snd p)"
  using is_count_tally[of "members X es"]
  by (simp add: names_own[OF assms] set_Object_entries)

lemma members_sub:
  assumes "\<And>e. in_bucket X e \<Longrightarrow> in_bucket Y e"
  shows "count_list (members X es) k \<le> count_list (members Y es) k"
proof -
  have "filter (\<lambda>e. name e = k \<and> in_bucket X e) es
          = filter (in_bucket X) (filter (\<lambda>e. name e = k \<and> in_bucket Y e) es)"
    using assms by (auto intro: filter_cong)
  hence "length (filter (\<lambda>e. name e = k \<and> in_bucket X e) es)
          \<le> length (filter (\<lambda>e. name e = k \<and> in_bucket Y e) es)"
    using length_filter_le[of "in_bucket X" "filter (\<lambda>e. name e = k \<and> in_bucket Y e) es"]
    by (simp del: filter_filter)
  thus ?thesis by (simp add: count_list_members)
qed

lemma sub_bucket:
  assumes own: "\<forall>e\<in>set es. own_key (name e)"
    and sub: "\<And>e. in_bucket X e \<Longrightarrow> in_bucket Y e"
    and look: "map_of (pick X (names (getEmployeeChartContent es))) k = Some v"
  shows "\<exists>n m. v = JNum n
           \<and> map_of (pick Y (names (getEmployeeChartContent es))) k = Some (JNum m) \<and> n \<le> m"
proof -
  from look have kX: "k \<in> set (members X es)" and v: "v = JNum (count_list (members X es) k)"
    by (auto simp: map_of_names_own[OF own] split: if_splits)
  from kX sub have kY: "k \<in> set (members Y es)"
    by (auto simp: members_def)
  show ?thesis
    using v kY members_sub[of X Y es k] sub by (simp add: map_of_names_own[OF own])
qed

lemma male_female_partition:
  "length (members Male es) + length (members Female es) = length es"
proof -
  have "in_bucket Female = (\<lambda>e. \<not> in_bucket Male e)"
    by (simp add: fun_eq_iff)
  thus ?thesis
    using sum_length_filter_compl[of "in_bucket Male" es] by (simp add: members_def)
qed

text \<open>
  Every name of the two corpora is a plain key, so the statements below cover all the
  sequences the generator produces.
\<close>

lemma corpus_plain:
  "list_all plain_key (male_names getNameLists @ female_names getNameLists)"
  by code_simp

subsection \<open>The scenarios of the specification\<close>

lemma scenario_buckets:
  "names (getEmployeeChartContent scenario) =
     \<lparr>all = [(''Jan'', JNum 2), (''Eva'', JNum 1)],
      male = [(''Jan'', JNum 2)],
      female = [(''Eva'', JNum 1)],
      femalePartTime = [(''Eva'', JNum 1)],
      maleFullTime = [(''Jan'', JNum 2)]\<rparr>"
  by code_simp

lemma empty_input_buckets:
  "getEmployeeChartContent [] =
     \<lparr>names = \<lparr>all = [], male = [], female = [], femalePartTime = [], maleFullTime = []\<rparr>,
      chartData = \<lparr>all = [], male = [], female = [], femalePartTime = [], maleFullTime = []\<rparr>\<rparr>"
  by code_simp

subsection \<open>Claims about the aggregator\<close>

text \<open>
  Claim C4, for the inputs whose names are own keys. Let no employee of the input have a
  name that \<^verbatim>\<open>Object.prototype\<close> defines (\<^verbatim>\<open>__proto__\<close>, \<^verbatim>\<open>constructor\<close>,
  \<^verbatim>\<open>toString\<close> and the like). Then every value in the five \<^verbatim>\<open>names\<close> buckets is a
  number, the counts of \<^verbatim>\<open>all\<close> sum to the length of the input, the counts of
  \<^verbatim>\<open>male\<close> and \<^verbatim>\<open>female\<close> together sum to the length of the input, every name of
  \<^verbatim>\<open>maleFullTime\<close> is in \<^verbatim>\<open>male\<close> with a count that is at least as large, and every
  name of \<^verbatim>\<open>femalePartTime\<close> is in \<^verbatim>\<open>female\<close> with a count that is at least as large.
\<close>

theorem bucket_invariant:
  assumes "\<forall>e\<in>set es. own_key (name e)"
  shows "(\<forall>X. \<forall>p\<in>set (pick X (names (getEmployeeChartContent es))). is_count (snd p))
       \<and> sum_counts (all (names (getEmployeeChartContent es))) = length es
       \<and> sum_counts (male (names (getEmployeeChartContent es)))
           + sum_counts (female (names (getEmployeeChartContent es))) = length es
       \<and> (\<forall>k v. map_of (maleFullTime (names (getEmployeeChartContent es))) k = Some v \<longrightarrow>
             (\<exists>n m. v = JNum n
                \<and> map_of (male (names (getEmployeeChartContent es))) k = Some (JNum m)
                \<and> n \<le> m))
       \<and> (\<forall>k v. map_of (femalePartTime (names (getEmployeeChartContent es))) k = Some v \<longrightarrow>
             (\<exists>n m. v = JNum n
                \<and> map_of (female (names (getEmployeeChartContent es))) k = Some (JNum m)
                \<and> n \<le> m))"
proof (intro conjI allI impI)
  fix X
  show "\<forall>p\<in>set (pick X (names (getEmployeeChartContent es))). is_count (snd p)"
    by (rule is_count_names_own[OF assms])
next
  show "sum_counts (all (names (getEmployeeChartContent es))) = length es"
    using sum_counts_names_own[OF assms, of All] by (simp add: members_def)
next
  show "sum_counts (male (names (getEmployeeChartContent es)))
           + sum_counts (female (names (getEmployeeChartContent es))) = length es"
    using sum_counts_names_own[OF assms, of Male] sum_counts_names_own[OF assms, of Female]
      male_female_partition[of es]
    by simp
next
  fix k v
  assume "map_of (maleFullTime (names (getEmployeeChartContent es))) k = Some v"
  with sub_bucket[OF assms, of MaleFullTime Male k v]
  show "\<exists>n m. v = JNum n
          \<and> map_of (male (names (getEmployeeChartContent es))) k = Some (JNum m) \<and> n \<le> m"
    by simp
next
  fix k v
  assume "map_of (femalePartTime (names (getEmployeeChartContent es))) k = Some v"
  with sub_bucket[OF assms, of FemalePartTime Female k v]
  show "\<exists>n m. v = JNum n
          \<and> map_of (female (names (getEmployeeChartContent es))) k = Some (JNum m) \<and> n \<le> m"
    by simp
qed

text \<open>
  On the scenario of the specification: three employees, \<^verbatim>\<open>all\<close> sums to three, and
  \<^verbatim>\<open>Jan\<close> has the count two in \<^verbatim>\<open>maleFullTime\<close> and in \<^verbatim>\<open>male\<close>.
\<close>

theorem bucket_invariant_witness:
  "list_all (\<lambda>e. own_key (name e)) scenario
   \<and> sum_counts (all (names (getEmployeeChartContent scenario))) = 3
   \<and> sum_counts (male (names (getEmployeeChartContent scenario)))
       + sum_counts (female (names (getEmployeeChartContent scenario))) = 3
   \<and> map_of (maleFullTime (names (getEmployeeChartContent scenario))) ''Jan'' = Some (JNum 2)
   \<and> map_of (male (names (getEmployeeChartContent scenario))) ''Jan'' = Some (JNum 2)"
proof -
  have h: "\<forall>e\<in>set scenario. own_key (name e)" by code_simp
  have l: "list_all (\<lambda>e. own_key (name e)) scenario" by code_simp
  have n: "length scenario = 3" by (simp add: scenario_def)
  have j: "map_of (maleFullTime (names (getEmployeeChartContent scenario))) ''Jan'' = Some (JNum 2)"
    "map_of (male (names (getEmployeeChartContent scenario))) ''Jan'' = Some (JNum 2)"
    by code_simp+
  from bucket_invariant[OF h] l n j show ?thesis by simp
qed

text \<open>
  An employee named \<^verbatim>\<open>__proto__\<close> is not counted at all: reading the key gives
  \<^verbatim>\<open>Object.prototype\<close>, which is truthy, and the inherited setter ignores the string
  that is assigned. The bucket \<^verbatim>\<open>all\<close> stays empty for an input of length one.
\<close>

theorem bucket_invariant_counterexample:
  "all (names (getEmployeeChartContent [sample_employee ''male'' ''__proto__'' 40])) = []
   \<and> sum_counts (all (names (getEmployeeChartContent [sample_employee ''male'' ''__proto__'' 40])))
       \<noteq> length [sample_employee ''male'' ''__proto__'' 40]"
  by code_simp

text \<open>
  Claim C5, for the inputs whose names are own keys. For every bucket, the values of
  \<^verbatim>\<open>chartData.X\<close> in list order are numbers that never increase from one entry to the
  next; the same holds for the entries of \<^verbatim>\<open>names.X\<close> in enumeration order when
  moreover no name is an array index.
\<close>

theorem sorted_by_count:
  assumes "\<forall>e\<in>set es. own_key (name e)"
  shows "successively count_ge (map val (pick X (chartData (getEmployeeChartContent es))))
       \<and> ((\<forall>e\<in>set es. \<not> is_array_index (name e)) \<longrightarrow>
            successively count_ge
              (map snd (Object_entries (pick X (names (getEmployeeChartContent es))))))"
proof (intro conjI impI)
  have c: "\<forall>p\<in>set (Object_entries (tally (members X es))). is_count (snd p)"
    using is_count_tally by (simp add: set_Object_entries)
  show "successively count_ge (map val (pick X (chartData (getEmployeeChartContent es))))"
    using sorted_entries_descending[OF c]
    by (simp only: chartData_own[OF assms] val_to_chart)
  assume "\<forall>e\<in>set es. \<not> is_array_index (name e)"
  with assms have "\<forall>e\<in>set es. plain_key (name e)"
    by (simp add: plain_key_def)
  from names_plain[OF this]
  show "successively count_ge
          (map snd (Object_entries (pick X (names (getEmployeeChartContent es)))))"
    using sorted_entries_descending[OF is_count_tally] by simp
qed

theorem sorted_by_count_witness:
  "list_all (\<lambda>e. plain_key (name e)) tied
   \<and> successively count_ge (map val (pick All (chartData (getEmployeeChartContent tied))))
   \<and> successively count_ge
       (map snd (Object_entries (pick All (names (getEmployeeChartContent tied)))))
   \<and> map val (pick All (chartData (getEmployeeChartContent tied))) = [JNum 2, JNum 1, JNum 1]"
proof -
  have h: "\<forall>e\<in>set tied. own_key (name e)" and i: "\<forall>e\<in>set tied. \<not> is_array_index (name e)"
    by code_simp+
  have l: "list_all (\<lambda>e. plain_key (name e)) tied" by code_simp
  have v: "map val (pick All (chartData (getEmployeeChartContent tied))) = [JNum 2, JNum 1, JNum 1]"
    by code_simp
  from sorted_by_count[OF h, of All] i l v show ?thesis by simp
qed

text \<open>
  With the names \<^verbatim>\<open>1\<close> (once) and \<^verbatim>\<open>2\<close> (twice), \<^verbatim>\<open>names.all\<close> enumerates the key
  \<^verbatim>\<open>1\<close> with count one before the key \<^verbatim>\<open>2\<close> with count two: array indices come first
  and in ascending order, whatever the order in which \<^verbatim>\<open>Object.fromEntries\<close> received
  them.
\<close>

theorem sorted_by_count_counterexample:
  "Object_entries (all (names (getEmployeeChartContent indexed)))
     = [(''1'', JNum 1), (''2'', JNum 2)]
   \<and> \<not> successively count_ge
         (map snd (Object_entries (all (names (getEmployeeChartContent indexed)))))"
  by code_simp

text \<open>
  The restriction to own keys is needed as well: under the name \<^verbatim>\<open>toString\<close> the
  bucket stores a string, and a list that holds a string next to a number is not
  descending in whatever order the sort leaves the two.
\<close>

lemma inherited_name_not_descending:
  "map val (pick All (chartData (getEmployeeChartContent
      [sample_employee ''male'' ''toString'' 40, sample_employee ''male'' ''Jan'' 40])))
     = [JStr ''function toString() { [native code] }1'', JNum 1]
   \<and> \<not> successively count_ge [JStr ''function toString() { [native code] }1'', JNum 1]
   \<and> \<not> successively count_ge [JNum 1, JStr ''function toString() { [native code] }1'']"
  by code_simp

text \<open>
  Claim C6, for the inputs without array indices among the names. For every bucket,
  \<^verbatim>\<open>chartData.X\<close> is the list of the pairs \<^verbatim>\<open>{label, value}\<close> of the entries of
  \<^verbatim>\<open>names.X\<close>, in enumeration order.
\<close>

theorem chartData_agrees_with_names:
  assumes "\<forall>e\<in>set es. \<not> is_array_index (name e)"
  shows "pick X (chartData (getEmployeeChartContent es)) =
           map (\<lambda>(k, v). \<lparr>label = k, val = v\<rparr>)
             (Object_entries (pick X (names (getEmployeeChartContent es))))"
proof -
  let ?b = "pick X (countNamesByCategory es initializeNameCounts)"
  have "\<forall>p\<in>set ?b. \<not> is_array_index (fst p)"
    using bucket_keys[of X es] assms by (simp del: set_map) force
  hence "\<forall>p\<in>set (Object_entries ?b). \<not> is_array_index (fst p)"
    by (simp add: set_Object_entries)
  hence "Object_entries (pick X (names (getEmployeeChartContent es))) =
           Array_sort compare_entries (Object_entries ?b)"
    unfolding names_sorted_entries
    by (intro Object_entries_plain) (simp add: set_Array_sort)
  thus ?thesis
    by (simp add: chartData_sorted_entries to_chart_def case_prod_unfold)
qed

theorem chartData_agrees_with_names_witness:
  "list_all (\<lambda>e. \<not> is_array_index (name e)) scenario
   \<and> pick All (chartData (getEmployeeChartContent scenario))
       = map (\<lambda>(k, v). \<lparr>label = k, val = v\<rparr>)
           (Object_entries (pick All (names (getEmployeeChartContent scenario))))
   \<and> Object_entries (pick All (names (getEmployeeChartContent scenario)))
       = [(''Jan'', JNum 2), (''Eva'', JNum 1)]"
proof -
  have h: "\<forall>e\<in>set scenario. \<not> is_array_index (name e)" by code_simp
  have l: "list_all (\<lambda>e. \<not> is_array_index (name e)) scenario" by code_simp
  have v: "Object_entries (pick All (names (getEmployeeChartContent scenario)))
             = [(''Jan'', JNum 2), (''Eva'', JNum 1)]"
    by code_simp
  from chartData_agrees_with_names[OF h, of All] l v show ?thesis by simp
qed

text \<open>
  With the names \<^verbatim>\<open>1\<close> (once) and \<^verbatim>\<open>2\<close> (twice), \<^verbatim>\<open>chartData.all\<close> starts with the
  label \<^verbatim>\<open>2\<close> and \<^verbatim>\<open>names.all\<close> starts with the key \<^verbatim>\<open>1\<close>.
\<close>

theorem chartData_agrees_with_names_counterexample:
  "map label (pick All (chartData (getEmployeeChartContent indexed))) = [''2'', ''1'']
   \<and> map fst (Object_entries (pick All (names (getEmployeeChartContent indexed)))) = [''1'', ''2'']
   \<and> pick All (chartData (getEmployeeChartContent indexed))
       \<noteq> map (\<lambda>(k, v). \<lparr>label = k, val = v\<rparr>)
           (Object_entries (pick All (names (getEmployeeChartContent indexed))))"
  by code_simp






text \<open>
  Claim C9, for the inputs whose names are plain keys. In both views of every bucket, the
  names that have the same count \<open>c\<close> stand in the order in which the input first mentions
  them among the members of the bucket.
\<close>

theorem ties_keep_first_seen_order:
  assumes "\<forall>e\<in>set es. plain_key (name e)"
  shows "map label (filter (\<lambda>p. val p = JNum c) (pick X (chartData (getEmployeeChartContent es))))
           = filter (\<lambda>k. count_list (members X es) k = c) (first_seen (members X es))
       \<and> map fst (filter (\<lambda>p. snd p = JNum c)
                      (Object_entries (pick X (names (getEmployeeChartContent es)))))
           = filter (\<lambda>k. count_list (members X es) k = c) (first_seen (members X es))"
proof -
  from assms have own: "\<forall>e\<in>set es. own_key (name e)"
    and plain: "\<forall>e\<in>set es. \<not> is_array_index (name e)"
    by (simp_all add: plain_key_def)
  let ?S = "sort_key sort_rank (tally (members X es))"
  have S: "map fst (filter (\<lambda>p. snd p = JNum c) ?S)
             = filter (\<lambda>k. count_list (members X es) k = c) (first_seen (members X es))"
    by (simp only: filter_count_sorted[OF is_count_tally] filter_tally)
  have chart: "pick X (chartData (getEmployeeChartContent es)) = map to_chart ?S"
    by (simp only: chartData_own[OF own] plain_entries[OF plain])
  have "filter (\<lambda>p. val p = JNum c) (map to_chart ?S)
          = map to_chart (filter (\<lambda>p. snd p = JNum c) ?S)"
    by (simp add: filter_map comp_def to_chart_def)
  hence "map label (filter (\<lambda>p. val p = JNum c) (map to_chart ?S))
          = map fst (filter (\<lambda>p. snd p = JNum c) ?S)"
    by (simp only: label_to_chart)
  with S chart names_plain[OF assms, of X] show ?thesis by simp
qed

text \<open>
  \<^verbatim>\<open>Eva\<close> is counted twice and comes first; \<^verbatim>\<open>Petr\<close> and \<^verbatim>\<open>Jan\<close> are counted once
  each and keep the order of the input.
\<close>

theorem ties_keep_first_seen_order_witness:
  "list_all (\<lambda>e. plain_key (name e)) tied
   \<and> map label (pick All (chartData (getEmployeeChartContent tied))) = [''Eva'', ''Petr'', ''Jan'']
   \<and> map label (filter (\<lambda>p. val p = JNum 1) (pick All (chartData (getEmployeeChartContent tied))))
       = [''Petr'', ''Jan'']"
proof -
  have h: "\<forall>e\<in>set tied. plain_key (name e)" by code_simp
  have l: "list_all (\<lambda>e. plain_key (name e)) tied" by code_simp
  have f: "filter (\<lambda>k. count_list (members All tied) k = 1) (first_seen (members All tied))
             = [''Petr'', ''Jan'']"
    by code_simp
  have a: "map label (pick All (chartData (getEmployeeChartContent tied)))
             = [''Eva'', ''Petr'', ''Jan'']"
    by code_simp
  from ties_keep_first_seen_order[OF h, of 1 All] f l a show ?thesis by simp
qed

text \<open>
  The input mentions \<^verbatim>\<open>2\<close> before \<^verbatim>\<open>1\<close>, each once; \<^verbatim>\<open>chartData.all\<close> lists
  \<^verbatim>\<open>1\<close> before \<^verbatim>\<open>2\<close>, since \<^verbatim>\<open>Object.entries\<close> enumerates array indices in
  ascending order before the stable sort sees them.
\<close>

theorem ties_keep_first_seen_order_counterexample:
  "first_seen (members All [sample_employee ''male'' ''2'' 40, sample_employee ''male'' ''1'' 40])
     = [''2'', ''1'']
   \<and> pick All (chartData (getEmployeeChartContent
        [sample_employee ''male'' ''2'' 40, sample_employee ''male'' ''1'' 40]))
     = [\<lparr>label = ''1'', val = JNum 1\<rparr>, \<lparr>label = ''2'', val = JNum 1\<rparr>]"
  by code_simp

text \<open>
  Claim C10, for the inputs whose names are own keys. Whatever the gender fields hold, a
  name has in \<^verbatim>\<open>female\<close> the number of the employees with that name whose gender is not
  the string \<^verbatim>\<open>male\<close>, and in \<^verbatim>\<open>femalePartTime\<close> the number of those among them whose
  workload is not 40; a name without such an employee is absent. So \<^verbatim>\<open>female\<close> counts
  exactly the employees that \<^verbatim>\<open>male\<close> does not, and the two buckets together count every
  employee.
\<close>

theorem non_male_counted_as_female:
  assumes "\<forall>e\<in>set es. own_key (name e)"
  shows "map_of (female (names (getEmployeeChartContent es))) k
           = (if k \<in> name ` {e \<in> set es. gender e \<noteq> ''male''}
              then Some (JNum (length (filter (\<lambda>e. name e = k \<and> gender e \<noteq> ''male'') es)))
              else None)
       \<and> map_of (femalePartTime (names (getEmployeeChartContent es))) k
           = (if k \<in> name ` {e \<in> set es. gender e \<noteq> ''male'' \<and> workload e \<noteq> 40}
              then Some (JNum (length (filter
                     (\<lambda>e. name e = k \<and> gender e \<noteq> ''male'' \<and> workload e \<noteq> 40) es)))
              else None)
       \<and> sum_counts (female (names (getEmployeeChartContent es)))
           = length (filter (\<lambda>e. gender e \<noteq> ''male'') es)
       \<and> sum_counts (femalePartTime (names (getEmployeeChartContent es)))
           = length (filter (\<lambda>e. gender e \<noteq> ''male'' \<and> workload e \<noteq> 40) es)
       \<and> sum_counts (male (names (getEmployeeChartContent es)))
           + sum_counts (female (names (getEmployeeChartContent es))) = length es"
proof -
  have f: "set (members Female es) = name ` {e \<in> set es. gender e \<noteq> ''male''}"
    by (auto simp: members_def)
  have p: "set (members FemalePartTime es)
             = name ` {e \<in> set es. gender e \<noteq> ''male'' \<and> workload e \<noteq> 40}"
    by (auto simp: members_def)
  have bF: "in_bucket Female = (\<lambda>e. gender e \<noteq> ''male'')"
    and bP: "in_bucket FemalePartTime = (\<lambda>e. gender e \<noteq> ''male'' \<and> workload e \<noteq> 40)"
    by (simp_all add: fun_eq_iff)
  have lF: "length (members Female es) = length (filter (\<lambda>e. gender e \<noteq> ''male'') es)"
    and lP: "length (members FemalePartTime es)
               = length (filter (\<lambda>e. gender e \<noteq> ''male'' \<and> workload e \<noteq> 40) es)"
    by (simp_all add: members_def bF bP)
  show ?thesis
    using map_of_names_own[OF assms, of Female k] map_of_names_own[OF assms, of FemalePartTime k]
      sum_counts_names_own[OF assms, of Female] sum_counts_names_own[OF assms, of FemalePartTime]
      sum_counts_names_own[OF assms, of Male] male_female_partition[of es]
    by (simp add: f p count_list_members lF lP)
qed

text \<open>
  Three employees whose gender fields are \<^verbatim>\<open>other\<close>, \<^verbatim>\<open>male\<close> and \<^verbatim>\<open>Male\<close>: the
  first and the third are counted in \<^verbatim>\<open>female\<close>, the first one also in
  \<^verbatim>\<open>femalePartTime\<close>.
\<close>

theorem non_male_counted_as_female_witness:
  "list_all (\<lambda>e. own_key (name e)) odd_genders
   \<and> map_of (female (names (getEmployeeChartContent odd_genders))) ''Eva'' = Some (JNum 2)
   \<and> map_of (femalePartTime (names (getEmployeeChartContent odd_genders))) ''Eva'' = Some (JNum 1)
   \<and> sum_counts (male (names (getEmployeeChartContent odd_genders)))
       + sum_counts (female (names (getEmployeeChartContent odd_genders))) = 3"
proof -
  have h: "\<forall>e\<in>set odd_genders. own_key (name e)" by code_simp
  have l: "list_all (\<lambda>e. own_key (name e)) odd_genders" by code_simp
  have n: "length odd_genders = 3" by (simp add: odd_genders_def)
  have v: "map_of (female (names (getEmployeeChartContent odd_genders))) ''Eva'' = Some (JNum 2)"
    "map_of (femalePartTime (names (getEmployeeChartContent odd_genders))) ''Eva'' = Some (JNum 1)"
    by code_simp+
  from non_male_counted_as_female[OF h, of "''Eva''"] l n v show ?thesis by simp
qed

text \<open>
  An employee named \<^verbatim>\<open>__proto__\<close> whose gender is not \<^verbatim>\<open>male\<close> is in neither gender
  bucket.
\<close>

theorem non_male_counted_as_female_counterexample:
  "female (names (getEmployeeChartContent [sample_employee ''other'' ''__proto__'' 10])) = []
   \<and> male (names (getEmployeeChartContent [sample_employee ''other'' ''__proto__'' 10])) = []
   \<and> femalePartTime (names (getEmployeeChartContent [sample_employee ''other'' ''__proto__'' 10]))
       = []"
  by code_simp

section \<open>The generator\<close>

subsection \<open>The calendar of the host\<close>

lemma div_bounds:
  fixes x m :: int
  assumes "0 < m"
  shows "m * (x div m) \<le> x" and "x < m * (x div m) + m"
  using mult_div_mod_eq[of m x] pos_mod_sign[OF assms, of x] pos_mod_bound[OF assms, of x]
  by linarith+

text \<open>A year has \<open>365.2425\<close> days on average; \<open>DayFromYear\<close> stays close to that line.\<close>

lemma DayFromYear_bounds:
  "146097 * (y - 1970) - 506 \<le> 400 * DayFromYear y"
  "400 * DayFromYear y \<le> 146097 * (y - 1970) + 589"
proof -
  define u where "u = y - 1970"
  define a where "a = (y - 1969) div 4"
  define b where "b = (y - 1901) div 100"
  define c where "c = (y - 1601) div 400"
  have a: "100 * u - 200 \<le> 400 * a" "400 * a \<le> 100 * u + 100"
    using div_bounds[of 4 "y - 1969"] unfolding a_def u_def by simp_all
  have b: "4 * u - 120 \<le> 400 * b" "400 * b \<le> 4 * u + 276"
    using div_bounds[of 100 "y - 1901"] unfolding b_def u_def by simp_all
  have c: "u - 30 \<le> 400 * c" "400 * c \<le> u + 369"
    using div_bounds[of 400 "y - 1601"] unfolding c_def u_def by simp_all
  have f: "DayFromYear y = 365 * u + a - b + c"
    by (simp add: DayFromYear_def a_def b_def c_def u_def)
  show "146097 * (y - 1970) - 506 \<le> 400 * DayFromYear y"
    unfolding f u_def[symmetric] using a b c by simp
  show "400 * DayFromYear y \<le> 146097 * (y - 1970) + 589"
    unfolding f u_def[symmetric] using a b c by simp
qed

lemma YearFromDay_correct:
  "DayFromYear (YearFromDay d) \<le> d \<and> d < DayFromYear (YearFromDay d + 1)"
proof -
  define y where "y = 1970 + (d * 400) div 146097"
  have e: "146097 * (y - 1970) \<le> 400 * d" "400 * d < 146097 * (y - 1970) + 146097"
    using div_bounds[of 146097 "d * 400"] unfolding y_def by simp_all
  have lo: "DayFromYear (y - 1) \<le> d"
    using DayFromYear_bounds(2)[of "y - 1"] e by simp
  have hi: "d < DayFromYear (y + 2)"
    using DayFromYear_bounds(1)[of "y + 2"] e by simp
  have r: "YearFromDay d =
     (if DayFromYear (y + 1) \<le> d then y + 1 else if d < DayFromYear y then y - 1 else y)"
    by (simp add: YearFromDay_def y_def Let_def)
  have s: "y + 1 + 1 = y + 2" "y - 1 + 1 = y" by simp_all
  show ?thesis
    using lo hi unfolding r by (simp add: s)
qed

lemma DayFromYear_Suc: "DayFromYear y < DayFromYear (y + 1)"
proof -
  have "(y - 1969) div 4 \<le> (y + 1 - 1969) div 4"
    by (rule zdiv_mono1) simp_all
  moreover have "(y - 1601) div 400 \<le> (y + 1 - 1601) div 400"
    by (rule zdiv_mono1) simp_all
  moreover have "(y + 1 - 1901) div 100 \<le> (y - 1901) div 100 + 1"
    using div_bounds[of 100 "y - 1901"] div_bounds[of 100 "y + 1 - 1901"] by simp
  ultimately show ?thesis
    by (simp add: DayFromYear_def)
qed

lemma DayFromYear_mono: "y \<le> y' \<Longrightarrow> DayFromYear y \<le> DayFromYear y'"
proof (induction y' rule: int_ge_induct)
  case base
  show ?case by simp
next
  case (step i)
  with DayFromYear_Suc[of i] show ?case by simp
qed

text \<open>\<open>YearFromDay d\<close> is the largest year that starts on day \<open>d\<close> or before.\<close>

lemma YearFromDay_largest:
  assumes "DayFromYear y \<le> d"
  shows "y \<le> YearFromDay d"
proof (rule ccontr)
  assume "\<not> y \<le> YearFromDay d"
  hence "YearFromDay d + 1 \<le> y" by simp
  from DayFromYear_mono[OF this] assms YearFromDay_correct[of d] show False by simp
qed

text \<open>
  The fields of four instants: the epoch, the millisecond before it, a leap day and the
  clock of the sample host.
\<close>

lemma calendar_examples:
  "iso8601_utc 0 = ''1970-01-01T00:00:00.000Z''"
  "iso8601_utc (- 1) = ''1969-12-31T23:59:59.999Z''"
  "iso8601_utc 951782400000 = ''2000-02-29T00:00:00.000Z''"
  "iso8601_utc 1793622896789 = ''2026-11-02T12:34:56.789Z''"
  by code_simp+

subsection \<open>Doubles\<close>

text \<open>
  Known doubles: \<^verbatim>\<open>0.1\<close>, \<^verbatim>\<open>1/3\<close> and \<^verbatim>\<open>0.1 + 0.2\<close>, and ties between two
  neighbouring doubles, which go to the even significand.
\<close>

lemma double_examples:
  "round_double (1 / 10) = 3602879701896397 / 2 ^ 55"
  "round_double (1 / 3) = 6004799503160661 / 2 ^ 54"
  "number_plus (to_double (1 / 10)) (to_double (2 / 10)) = Some (5404319552844596 / 2 ^ 54)"
  "round_double (2 ^ 53 + 1) = 2 ^ 53"
  "round_double (2 ^ 53 + 3) = 2 ^ 53 + 4"
  "round_double (- (2 ^ 53 + 3)) = - (2 ^ 53 + 4)"
  "round_double (2 ^ 100 + 2 ^ 47) = 2 ^ 100"
  "round_double (1 / 2 ^ 60 + 1 / 2 ^ 113) = 1 / 2 ^ 60"
  by code_simp+

subsection \<open>The resampling loop\<close>

lemma generateUniqueBirthdate_unfold:
  "generateUniqueBirthdate h dr used rng =
     (if candidate h dr (shd rng) \<in> used
      then generateUniqueBirthdate h dr used (stl rng)
      else Some (candidate h dr (shd rng), insert (candidate h dr (shd rng)) used, stl rng))"
  by (subst generateUniqueBirthdate.simps) (simp add: candidate_def Let_def)

text \<open>
  What the loop returns is a candidate that was not in the set, and the set grows by it.
  The rule \<open>raw_induct\<close> of the partial function covers every run that returns.
\<close>

lemma generateUniqueBirthdate_result:
  assumes "generateUniqueBirthdate h dr used rng = Some y"
  shows "fst y \<notin> used \<and> fst (snd y) = insert (fst y) used \<and> (\<exists>r. fst y = candidate h dr r)"
  by (rule generateUniqueBirthdate.raw_induct
        [where P = "\<lambda>h dr used rng y.
           fst y \<notin> used \<and> fst (snd y) = insert (fst y) used \<and> (\<exists>r. fst y = candidate h dr r)",
         OF _ assms])
     (auto simp: Let_def candidate_def split: if_splits)

lemma generateUniqueBirthdate_fresh:
  "generateUniqueBirthdate h dr used rng = Some (b, used', rng') \<Longrightarrow>
   b \<notin> used \<and> used' = insert b used \<and> (\<exists>r. b = candidate h dr r)"
  by (drule generateUniqueBirthdate_result) simp

text \<open>When every candidate is in the set already, the loop never ends.\<close>

lemma generateUniqueBirthdate_exhausted:
  assumes "\<forall>r. candidate h dr r \<in> used"
  shows "generateUniqueBirthdate h dr used rng = None"
proof (rule ccontr)
  assume "generateUniqueBirthdate h dr used rng \<noteq> None"
  then obtain y where "generateUniqueBirthdate h dr used rng = Some y" by auto
  from generateUniqueBirthdate_result[OF this] assms show False by auto
qed

lemma createEmployee_fresh:
  "createEmployee h nl surnames dr used rng = Some (e, used', rng') \<Longrightarrow>
   birthdate e \<notin> used \<and> used' = insert (birthdate e) used
   \<and> (\<exists>r. birthdate e = candidate h dr r)"
  by (auto simp: createEmployee_def Let_def split: option.splits
           dest!: generateUniqueBirthdate_fresh)

lemma createEmployee_exhausted:
  "\<forall>r. candidate h dr r \<in> used \<Longrightarrow> createEmployee h nl surnames dr used rng = None"
  by (simp add: createEmployee_def Let_def generateUniqueBirthdate_exhausted)

lemma createEmployee_first_draw:
  assumes "candidate h dr (shd (stl (stl (stl (stl rng))))) \<notin> used"
  shows "\<exists>e. createEmployee h nl surnames dr used rng =
           Some (e, insert (candidate h dr (shd (stl (stl (stl (stl rng)))))) used,
                 stl (stl (stl (stl (stl rng)))))"
  using assms
  by (simp add: createEmployee_def Let_def
        generateUniqueBirthdate_unfold[of h dr used "stl (stl (stl (stl rng)))"])

subsection \<open>The loop over the employees\<close>

lemma loop_result:
  "generateEmployeeData_loop h nl surnames dr n i employees used rng = Some es \<Longrightarrow>
   length es = length employees + nat (n - i)
   \<and> (used = set (map birthdate employees) \<longrightarrow> distinct (map birthdate employees)
        \<longrightarrow> distinct (map birthdate es))"
proof (induction h nl surnames dr n i employees used rng
       rule: generateEmployeeData_loop.induct)
  case (1 h nl surnames dr n i employees used rng)
  show ?case
  proof (cases "i < n")
    case False
    with "1.prems" show ?thesis
      by (simp add: generateEmployeeData_loop.simps)
  next
    case True
    with "1.prems" obtain e used' rng' where
      ce: "createEmployee h nl surnames dr used rng = Some (e, used', rng')" and
      rec: "generateEmployeeData_loop h nl surnames dr n (i + 1) (employees @ [e]) used' rng'
              = Some es"
      by (subst (asm) generateEmployeeData_loop.simps) (auto split: option.splits)
    from createEmployee_fresh[OF ce] have
      fresh: "birthdate e \<notin> used" and used': "used' = insert (birthdate e) used"
      by simp_all
    from "1.IH"[OF True ce refl refl rec] have
      len: "length es = length (employees @ [e]) + nat (n - (i + 1))" and
      dist: "used' = set (map birthdate (employees @ [e])) \<longrightarrow>
             distinct (map birthdate (employees @ [e])) \<longrightarrow> distinct (map birthdate es)"
      by simp_all
    from len True have "length es = length employees + nat (n - i)"
      by simp
    moreover from dist fresh used'
    have "used = set (map birthdate employees) \<longrightarrow> distinct (map birthdate employees)
            \<longrightarrow> distinct (map birthdate es)"
      by auto
    ultimately show ?thesis by simp
  qed
qed

lemma loop_stuck:
  "\<forall>r. candidate h dr r \<in> used \<Longrightarrow> i < n \<Longrightarrow>
   generateEmployeeData_loop h nl surnames dr n i employees used rng = None"
  by (subst generateEmployeeData_loop.simps) (simp add: createEmployee_exhausted)

text \<open>
  When all draws give the same candidate, the first employee takes it and the second one
  never gets a birthdate.
\<close>

lemma loop_constant_candidates:
  assumes const: "\<forall>r r'. candidate h dr r = candidate h dr r'" and two: "i + 2 \<le> n"
  shows "generateEmployeeData_loop h nl surnames dr n i employees used rng = None"
proof (cases "createEmployee h nl surnames dr used rng")
  case None
  with two show ?thesis
    by (subst generateEmployeeData_loop.simps) simp
next
  case (Some x)
  obtain e used' rng' where x: "x = (e, used', rng')" by (cases x)
  from createEmployee_fresh[OF Some[unfolded x]] obtain r0 where
    "used' = insert (birthdate e) used" and "birthdate e = candidate h dr r0"
    by blast
  hence m: "candidate h dr r0 \<in> used'" by simp
  have "\<forall>r. candidate h dr r \<in> used'"
  proof
    fix r
    from const have "candidate h dr r = candidate h dr r0" by blast
    with m show "candidate h dr r \<in> used'" by simp
  qed
  hence "generateEmployeeData_loop h nl surnames dr n (i + 1) (employees @ [e]) used' rng' = None"
    using two by (intro loop_stuck) simp_all
  with Some x two show ?thesis
    by (subst generateEmployeeData_loop.simps) simp
qed

lemma loop_returns:
  "first_draws_unused h dr used rng k \<Longrightarrow> k = nat (n - i) \<Longrightarrow>
   \<exists>es. generateEmployeeData_loop h nl surnames dr n i employees used rng = Some es"
proof (induction k arbitrary: i employees used rng)
  case 0
  then show ?case by (subst generateEmployeeData_loop.simps) simp
next
  case (Suc k)
  let ?rng4 = "stl (stl (stl (stl rng)))"
  let ?b = "candidate h dr (shd ?rng4)"
  from Suc.prems(1) have fresh: "?b \<notin> used"
    and rest: "first_draws_unused h dr (insert ?b used) (stl ?rng4) k"
    by (simp_all add: Let_def)
  from createEmployee_first_draw[OF fresh] obtain e where
    ce: "createEmployee h nl surnames dr used rng = Some (e, insert ?b used, stl ?rng4)"
    by blast
  from Suc.prems(2) have lt: "i < n" and k: "k = nat (n - (i + 1))" by linarith+
  from Suc.IH[OF rest k] obtain es where
    "generateEmployeeData_loop h nl surnames dr n (i + 1) (employees @ [e]) (insert ?b used)
       (stl ?rng4) = Some es"
    by blast
  with ce lt show ?case
    by (subst generateEmployeeData_loop.simps) simp
qed

subsection \<open>The whole generation\<close>

text \<open>
  With \<^verbatim>\<open>age.min = age.max\<close> the two ends of the window are the same date, the range is
  \<open>0\<close> (or NaN, when that date is out of range) and every draw gives the same candidate.
\<close>

lemma constant_candidates:
  assumes "min_age (age dto) = max_age (age dto)"
  shows "candidate h (calculateDateRange h dto) r = candidate h (calculateDateRange h dto) r'"
proof -
  have zero: "to_double 0 = Some 0"
    by (simp add: to_double_def round_double_def)
  have "range (calculateDateRange h dto) = None \<or> range (calculateDateRange h dto) = Some 0"
    using assms
    by (simp add: calculateDateRange_def Let_def number_minus_def getTime_def zero
             split: option.splits)
  hence "randomTime (calculateDateRange h dto) r = randomTime (calculateDateRange h dto) r'"
    by (auto simp: randomTime_def number_times_def number_plus_def zero split: option.splits)
  thus ?thesis by (simp add: candidate_def)
qed

lemma generate_result:
  assumes "generateEmployeeData h dto rng = Some es"
  shows "length es = nat (count dto)" and "distinct (map birthdate es)"
  using loop_result[OF assms[unfolded generateEmployeeData_def Let_def]] by simp_all

lemma generate_zero_span:
  assumes "min_age (age dto) = max_age (age dto)" and "2 \<le> count dto"
  shows "generateEmployeeData h dto rng = None"
  unfolding generateEmployeeData_def Let_def
  using constant_candidates[OF assms(1)] assms(2)
  by (intro loop_constant_candidates) auto

lemma generate_returns:
  assumes "first_draws_unused h (calculateDateRange h dto) {} rng (nat (count dto))"
  shows "\<exists>es. generateEmployeeData h dto rng = Some es"
  unfolding generateEmployeeData_def Let_def
  using loop_returns[OF assms, of "count dto" 0] by simp

subsection \<open>Two runs on the sample host\<close>

lemma twenties_candidates:
  "candidate host_utc1 (calculateDateRange host_utc1 twenties) (3/8) = ''2000-08-03T01:34:56.789Z''"
  "candidate host_utc1 (calculateDateRange host_utc1 twenties) (5/8) = ''2003-02-02T01:34:56.789Z''"
  "candidate host_utc1 (calculateDateRange host_utc1 twenties) (1/8) = ''1998-02-02T01:34:56.789Z''"
  "candidate host_utc1 (calculateDateRange host_utc1 twenties) (7/8) = ''2005-08-03T01:34:56.789Z''"
  by code_simp+

lemma sample_elements:
  "random_element [10, 20, 30, 40 :: int] (3/4) = 40"
  "random_element [10, 20, 30, 40 :: int] (1/4) = 20"
  "random_element (male_names getNameLists) (1/2) = ''Karel''"
  "random_element (female_names getNameLists) (1/8) = ''Eva''"
  "random_element getSurnameList (29/32) = ''Urban''"
  by code_simp+

lemma colliding_first:
  "createEmployee host_utc1 getNameLists getSurnameList (calculateDateRange host_utc1 twenties) {}
     colliding_draws =
   Some (\<lparr>gender = ''male'', birthdate = ''2000-08-03T01:34:56.789Z'', name = ''Karel'',
           surname = ''Urban'', workload = 40\<rparr>,
         {''2000-08-03T01:34:56.789Z''},
         draws [3/4, 1/4, 1/8, 29/32, 3/8, 5/8])"
  by (simp add: createEmployee_def colliding_draws_def draws_def Let_def sample_elements
        generateUniqueBirthdate_unfold twenties_candidates)

lemma colliding_second:
  "createEmployee host_utc1 getNameLists getSurnameList (calculateDateRange host_utc1 twenties)
     {''2000-08-03T01:34:56.789Z''} (draws [3/4, 1/4, 1/8, 29/32, 3/8, 5/8]) =
   Some (\<lparr>gender = ''female'', birthdate = ''2003-02-02T01:34:56.789Z'', name = ''Eva'',
           surname = ''Urban'', workload = 20\<rparr>,
         {''2003-02-02T01:34:56.789Z'', ''2000-08-03T01:34:56.789Z''},
         draws [])"
  by (simp add: createEmployee_def draws_def Let_def sample_elements
        generateUniqueBirthdate_unfold twenties_candidates)

lemma colliding_run:
  "generateEmployeeData host_utc1 twenties colliding_draws =
   Some [\<lparr>gender = ''male'', birthdate = ''2000-08-03T01:34:56.789Z'', name = ''Karel'',
           surname = ''Urban'', workload = 40\<rparr>,
         \<lparr>gender = ''female'', birthdate = ''2003-02-02T01:34:56.789Z'', name = ''Eva'',
           surname = ''Urban'', workload = 20\<rparr>]"
proof -
  have c: "count twenties = 2" by (simp add: twenties_def)
  show ?thesis
    unfolding generateEmployeeData_def Let_def c
    by (subst generateEmployeeData_loop.simps, simp add: colliding_first)
       (subst generateEmployeeData_loop.simps, simp add: colliding_second,
        subst generateEmployeeData_loop.simps, simp)
qed


subsection \<open>The text of a birthdate\<close>

lemma length_decimal_pos: "0 < length (decimal n)"
  by (subst decimal.simps) simp

lemma length_decimal_thousand:
  assumes "1000 \<le> n"
  shows "4 \<le> length (decimal n)"
proof -
  from assms have a: "\<not> n < 10" "\<not> n div 10 < 10" "\<not> n div 10 div 10 < 10" by linarith+
  have "decimal n = decimal (n div 10) @ [char_of (48 + n mod 10)]"
    using a(1) by (subst decimal.simps) simp
  moreover have "decimal (n div 10) = decimal (n div 10 div 10) @ [char_of (48 + n div 10 mod 10)]"
    using a(2) by (subst decimal.simps) simp
  moreover have "decimal (n div 10 div 10)
                   = decimal (n div 10 div 10 div 10) @ [char_of (48 + n div 10 div 10 mod 10)]"
    using a(3) by (subst decimal.simps) simp
  ultimately show ?thesis using length_decimal_pos[of "n div 10 div 10 div 10"] by simp
qed

text \<open>
  On a host whose local time is UTC the program prints the ISO-8601 text of the instant,
  for the years from 1000 on (the program does not pad the year).
\<close>

lemma utc_host_prints_iso:
  assumes "LocalTZA h = (\<lambda>t isUTC. 0)" and "1000 \<le> YearFromTime t"
  shows "formatDateToISO h (Some t) = iso8601_utc t"
proof -
  have l: "LocalTime h t = t" using assms(1) by (simp add: LocalTime_def)
  have "padStart 4 CHR ''0'' (String (Some (YearFromTime t))) = String (Some (YearFromTime t))"
    using length_decimal_thousand[OF assms(2)] assms(2) by (simp add: padStart_def String_def)
  thus ?thesis
    by (simp add: formatDateToISO_def iso8601_utc_def l Let_def)
qed

subsection \<open>Claims about the generator\<close>




text \<open>
  Claim C2. The birthdate strings of every sequence that \<^verbatim>\<open>generateEmployeeData\<close>
  returns are pairwise distinct.
\<close>

theorem birthdates_distinct:
  assumes "generateEmployeeData h dto rng = Some es"
  shows "distinct (map birthdate es)"
  using assms by (rule generate_result(2))

text \<open>
  A run in which the second employee first draws the birthdate of the first one: the loop
  draws again and the run returns two employees with different birthdates.
\<close>

theorem birthdates_distinct_witness:
  "generateEmployeeData host_utc1 twenties colliding_draws =
     Some [\<lparr>gender = ''male'', birthdate = ''2000-08-03T01:34:56.789Z'', name = ''Karel'',
             surname = ''Urban'', workload = 40\<rparr>,
           \<lparr>gender = ''female'', birthdate = ''2003-02-02T01:34:56.789Z'', name = ''Eva'',
             surname = ''Urban'', workload = 20\<rparr>]
   \<and> distinct [''2000-08-03T01:34:56.789Z'', ''2003-02-02T01:34:56.789Z'']"
  using birthdates_distinct[OF colliding_run] colliding_run by simp

text \<open>
  Claim C3, as the program behaves. With \<^verbatim>\<open>age.min = age.max\<close> the window has one
  instant and the program has no special case for it: for every host and every random
  source, a run with a count of two or more never returns, and a run with a smaller count
  returns \<^verbatim>\<open>config.count\<close> employees. In particular
  \<^verbatim>\<open>generate({count: 3, age: {min: 0, max: 0}})\<close> never returns.
\<close>

theorem zero_span_returns_iff:
  assumes "min_age (age dto) = max_age (age dto)"
  shows "(2 \<le> count dto \<longrightarrow> generateEmployeeData h dto rng = None)
       \<and> (count dto < 2 \<longrightarrow>
            (\<exists>es. generateEmployeeData h dto rng = Some es \<and> length es = nat (count dto)))"
proof (intro conjI impI)
  assume "2 \<le> count dto"
  with assms show "generateEmployeeData h dto rng = None"
    by (rule generate_zero_span)
next
  assume lt: "count dto < 2"
  hence "nat (count dto) = 0 \<or> nat (count dto) = Suc 0" by linarith
  hence "first_draws_unused h (calculateDateRange h dto) {} rng (nat (count dto))"
    by (auto simp: Let_def)
  from generate_returns[OF this] obtain es where es: "generateEmployeeData h dto rng = Some es"
    by blast
  with generate_result(1)[OF es]
  show "\<exists>es. generateEmployeeData h dto rng = Some es \<and> length es = nat (count dto)"
    by blast
qed

theorem zero_span_returns_iff_witness:
  "min_age (age (zero_span 3)) = max_age (age (zero_span 3))
   \<and> generateEmployeeData host_utc1 (zero_span 3) fresh_draws = None
   \<and> (\<exists>es. generateEmployeeData host_utc1 (zero_span 1) fresh_draws = Some es \<and> length es = 1)"
proof -
  have a: "min_age (age (zero_span 3)) = max_age (age (zero_span 3))"
    and b: "min_age (age (zero_span 1)) = max_age (age (zero_span 1))"
    by (simp_all add: zero_span_def)
  from zero_span_returns_iff[OF a, of host_utc1 fresh_draws]
       zero_span_returns_iff[OF b, of host_utc1 fresh_draws] a
  show ?thesis by (simp add: zero_span_def)
qed

text \<open>
  The scenario of the specification does not return three employees with distinct
  birthdates: it does not return.
\<close>

theorem zero_span_returns_iff_counterexample:
  "\<not> (\<exists>es. generateEmployeeData host_utc1 (zero_span 3) colliding_draws = Some es
            \<and> length es = 3 \<and> distinct (map birthdate es))"
proof -
  have "generateEmployeeData host_utc1 (zero_span 3) colliding_draws = None"
    by (rule generate_zero_span) (simp_all add: zero_span_def)
  thus ?thesis by simp
qed

text \<open>
  Claim C8, on a host that is not in UTC. \<^verbatim>\<open>formatDateToISO\<close> reads the fields with the
  local-time methods (\<^verbatim>\<open>getHours\<close> and the others) and then appends \<^verbatim>\<open>Z\<close>. On the
  sample host, one hour ahead of UTC, the epoch is printed as one o'clock, and the
  birthdate of the draw \<open>3/8\<close> in the window of the ages 20 to 30 is printed an hour late:
  the text has the shape of the claim and names another instant than the sampled one.
\<close>

theorem formatDateToISO_local_fields:
  "formatDateToISO host_utc1 (Some 0) = ''1970-01-01T01:00:00.000Z''
   \<and> iso8601_utc 0 = ''1970-01-01T00:00:00.000Z''
   \<and> new_Date (randomTime (calculateDateRange host_utc1 twenties) (3/8)) = Some 965262896789
   \<and> formatDateToISO host_utc1 (Some 965262896789) = ''2000-08-03T01:34:56.789Z''
   \<and> iso8601_utc 965262896789 = ''2000-08-03T00:34:56.789Z''"
  by code_simp

end
